theory Spec2Isabelle
  imports Complex_Main
begin

section \<open>Numbers\<close>

text \<open>
  The program computes with JavaScript numbers. Coordinates, cell sizes, vector components
  and ages are modelled by \<open>real\<close>: finite values, arithmetic without rounding. Grid
  dimensions and array indexes are \<open>int\<close>. Where the source can leave the finite numbers
  (the magnitude range starts at plus and minus infinity, \<open>indexFor\<close> divides by
  \<open>max - min\<close>), the value is a \<open>jsnum\<close>, which adds the two infinities and NaN.
  The construction of a field is given a second time with samples in \<open>jsnum\<close>, for the
  samples that are NaN or infinite. Signed zeros are not distinguished: every zero is the
  positive one.
\<close>

datatype jsnum = NaN | NInf | Fin real | PInf

fun js_lt :: "jsnum \<Rightarrow> jsnum \<Rightarrow> bool" where
  "js_lt NaN b = False"
| "js_lt a NaN = False"
| "js_lt PInf b = False"
| "js_lt a NInf = False"
| "js_lt NInf b = True"
| "js_lt a PInf = True"
| "js_lt (Fin a) (Fin b) = (a < b)"

fun js_le :: "jsnum \<Rightarrow> jsnum \<Rightarrow> bool" where
  "js_le NaN b = False"
| "js_le a NaN = False"
| "js_le NInf b = True"
| "js_le a PInf = True"
| "js_le PInf b = False"
| "js_le a NInf = False"
| "js_le (Fin a) (Fin b) = (a \<le> b)"

text \<open>\<open>Math.min\<close> and \<open>Math.max\<close>: NaN as soon as one argument is NaN.\<close>

fun js_min :: "jsnum \<Rightarrow> jsnum \<Rightarrow> jsnum" where
  "js_min NaN b = NaN"
| "js_min a NaN = NaN"
| "js_min a b = (if js_lt b a then b else a)"

fun js_max :: "jsnum \<Rightarrow> jsnum \<Rightarrow> jsnum" where
  "js_max NaN b = NaN"
| "js_max a NaN = NaN"
| "js_max a b = (if js_lt a b then b else a)"

fun js_neg :: "jsnum \<Rightarrow> jsnum" where
  "js_neg NaN = NaN"
| "js_neg NInf = PInf"
| "js_neg PInf = NInf"
| "js_neg (Fin a) = Fin (- a)"

fun js_add :: "jsnum \<Rightarrow> jsnum \<Rightarrow> jsnum" where
  "js_add NaN b = NaN"
| "js_add a NaN = NaN"
| "js_add PInf NInf = NaN"
| "js_add NInf PInf = NaN"
| "js_add PInf b = PInf"
| "js_add a PInf = PInf"
| "js_add NInf b = NInf"
| "js_add a NInf = NInf"
| "js_add (Fin a) (Fin b) = Fin (a + b)"

definition js_sub :: "jsnum \<Rightarrow> jsnum \<Rightarrow> jsnum" where
  "js_sub a b = js_add a (js_neg b)"

text \<open>The sign of a number that is not NaN: \<open>-1\<close>, \<open>0\<close> or \<open>1\<close>.\<close>

fun js_sgn :: "jsnum \<Rightarrow> int" where
  "js_sgn NaN = 0"
| "js_sgn NInf = - 1"
| "js_sgn PInf = 1"
| "js_sgn (Fin a) = (if a < 0 then - 1 else if a = 0 then 0 else 1)"

definition js_inf :: "int \<Rightarrow> jsnum" where
  "js_inf s = (if s < 0 then NInf else PInf)"

fun js_mul :: "jsnum \<Rightarrow> jsnum \<Rightarrow> jsnum" where
  "js_mul NaN b = NaN"
| "js_mul a NaN = NaN"
| "js_mul (Fin a) (Fin b) = Fin (a * b)"
| "js_mul a b = (if js_sgn a * js_sgn b = 0 then NaN else js_inf (js_sgn a * js_sgn b))"

text \<open>
  Division: a finite number divided by zero is an infinity of the sign of the dividend,
  \<open>0 / 0\<close> and \<open>\<infinity> / \<infinity>\<close> are NaN, a finite number divided by an infinity is zero.
\<close>

fun js_div :: "jsnum \<Rightarrow> jsnum \<Rightarrow> jsnum" where
  "js_div NaN b = NaN"
| "js_div a NaN = NaN"
| "js_div (Fin a) (Fin b) =
     (if b = 0 then (if a = 0 then NaN else js_inf (js_sgn (Fin a))) else Fin (a / b))"
| "js_div (Fin a) b = Fin 0"
| "js_div a (Fin b) = js_inf (js_sgn a * (if b < 0 then - 1 else 1))"
| "js_div a b = NaN"

text \<open>\<open>Math.round\<close>: the nearest integer, a tie going up.\<close>

fun js_round :: "jsnum \<Rightarrow> jsnum" where
  "js_round (Fin a) = Fin (of_int \<lfloor>a + 1 / 2\<rfloor>)"
| "js_round a = a"

section \<open>Vector\<close>

record Vector =
  vec_u :: real
  vec_v :: real
  vec_m :: real

definition magnitude :: "real \<Rightarrow> real \<Rightarrow> real" where
  "magnitude u v = sqrt (u * u + v * v)"

text \<open>The constructor \<open>new Vector(u, v)\<close> stores the magnitude in \<open>m\<close>.\<close>

definition mkVector :: "real \<Rightarrow> real \<Rightarrow> Vector" where
  "mkVector u v = \<lparr>vec_u = u, vec_v = v, vec_m = magnitude u v\<rparr>"

section \<open>Field\<close>

text \<open>
  A grid slot holds a vector or \<open>null\<close>; reading an array outside its bounds gives
  \<open>undefined\<close>. The source tells the two apart (\<open>isValid\<close> rejects both,
  \<open>vec !== null\<close> only the first), so a cell has three forms.
\<close>

datatype cell = Vec Vector | Null | Undefined

datatype error = GridRequired | TypeError

fun isValid :: "cell \<Rightarrow> bool" where
  "isValid (Vec g) = True"
| "isValid Null = False"
| "isValid Undefined = False"

text \<open>\<open>xs[k]\<close> for an integer index: \<open>undefined\<close> outside the bounds.\<close>

definition at_index :: "'a list \<Rightarrow> int \<Rightarrow> 'a option" where
  "at_index xs k = (if 0 \<le> k \<and> k < int (length xs) then Some (xs ! nat k) else None)"

definition cell_at :: "cell list \<Rightarrow> int \<Rightarrow> cell" where
  "cell_at row k = (case at_index row k of None \<Rightarrow> Undefined | Some c \<Rightarrow> c)"

text \<open>
  An entry of \<open>us\<close> or \<open>vs\<close> is a number or \<open>null\<close> (\<open>None\<close>); an index past the
  end reads \<open>undefined\<close>, which \<open>isValid\<close> rejects like \<open>null\<close>.
\<close>

definition sample_at :: "real option list \<Rightarrow> nat \<Rightarrow> real option" where
  "sample_at xs p = (if p < length xs then xs ! p else None)"

record ConstructorOptions =
  opt_xmin :: real
  opt_xmax :: real
  opt_ymin :: real
  opt_ymax :: real
  opt_cols :: int
  opt_rows :: int
  opt_us :: "real option list"
  opt_vs :: "real option list"
  opt_deltaX :: real
  opt_deltaY :: real
  opt_wrappedX :: "bool option"

record Field =
  xmin :: real
  xmax :: real
  ymin :: real
  ymax :: real
  cols :: int
  rows :: int
  us :: "real option list"
  vs :: "real option list"
  deltaX :: real
  deltaY :: real
  grid :: "cell list list"
  isContinuous :: bool
  wrappedX :: bool
  frange :: "jsnum \<times> jsnum"

definition floorMod :: "real \<Rightarrow> real \<Rightarrow> real" where
  "floorMod a n = a - n * of_int \<lfloor>a / n\<rfloor>"

subsection \<open>buildGrid\<close>

definition buildCell :: "real option list \<Rightarrow> real option list \<Rightarrow> nat \<Rightarrow> cell" where
  "buildCell us0 vs0 p =
     (case (sample_at us0 p, sample_at vs0 p) of
        (Some u, Some v) \<Rightarrow> Vec (mkVector u v)
      | _ \<Rightarrow> Null)"

text \<open>The inner loop: \<open>n\<close> more columns, \<open>p\<close> the running index into \<open>us\<close> and \<open>vs\<close>.\<close>

fun buildRow :: "real option list \<Rightarrow> real option list \<Rightarrow> nat \<Rightarrow> nat \<Rightarrow> cell list" where
  "buildRow us0 vs0 p 0 = []"
| "buildRow us0 vs0 p (Suc n) = buildCell us0 vs0 p # buildRow us0 vs0 (Suc p) n"

text \<open>
  One row as the outer loop stores it: the cells of the inner loop and, on a continuous
  grid, \<open>row[0]\<close> pushed after them.
\<close>

definition builtRow :: "real option list \<Rightarrow> real option list \<Rightarrow> bool \<Rightarrow> nat \<Rightarrow> nat \<Rightarrow> cell list" where
  "builtRow us0 vs0 cont c p =
     (let row = buildRow us0 vs0 p c
      in if cont then row @ [cell_at row 0] else row)"

text \<open>The outer loop: \<open>r\<close> more rows of \<open>c\<close> columns each.\<close>

fun buildRows :: "real option list \<Rightarrow> real option list \<Rightarrow> bool \<Rightarrow> nat \<Rightarrow> nat \<Rightarrow> nat \<Rightarrow> cell list list" where
  "buildRows us0 vs0 cont c p 0 = []"
| "buildRows us0 vs0 cont c p (Suc r) =
     builtRow us0 vs0 cont c p # buildRows us0 vs0 cont c (p + c) r"

definition buildGrid :: "real option list \<Rightarrow> real option list \<Rightarrow> bool \<Rightarrow> int \<Rightarrow> int \<Rightarrow> cell list list" where
  "buildGrid us0 vs0 cont c r = buildRows us0 vs0 cont (nat c) 0 (nat r)"

subsection \<open>calculateRange\<close>

text \<open>
  One cell of the scan. \<open>min\<close> and \<open>max\<close> start at the infinities and are never
  \<open>undefined\<close>, so of the three branches of the source only the last one runs.
  \<open>vec.m || vec.magnitude()\<close> is \<open>vec.m\<close> unless that is zero, and then the magnitude.
  Reading \<open>.m\<close> of \<open>undefined\<close> throws.
\<close>

fun rangeCell :: "cell \<Rightarrow> jsnum \<times> jsnum \<Rightarrow> error + jsnum \<times> jsnum" where
  "rangeCell Null acc = Inr acc"
| "rangeCell Undefined acc = Inl TypeError"
| "rangeCell (Vec g) (mn, mx) =
     (let val = (if vec_m g \<noteq> 0 then vec_m g else magnitude (vec_u g) (vec_v g))
      in Inr (js_min (Fin val) mn, js_max (Fin val) mx))"

text \<open>The inner loop over the column indexes \<open>is\<close> of one row.\<close>

fun rangeRow :: "cell list \<Rightarrow> nat list \<Rightarrow> jsnum \<times> jsnum \<Rightarrow> error + jsnum \<times> jsnum" where
  "rangeRow row [] acc = Inr acc"
| "rangeRow row (i # is) acc =
     (case rangeCell (cell_at row (int i)) acc of
        Inl e \<Rightarrow> Inl e
      | Inr acc' \<Rightarrow> rangeRow row is acc')"

fun rangeRows :: "cell list list \<Rightarrow> nat \<Rightarrow> jsnum \<times> jsnum \<Rightarrow> error + jsnum \<times> jsnum" where
  "rangeRows [] c acc = Inr acc"
| "rangeRows (row # rest) c acc =
     (case rangeRow row [0..<c] acc of
        Inl e \<Rightarrow> Inl e
      | Inr acc' \<Rightarrow> rangeRows rest c acc')"

definition calculateRange :: "cell list list \<Rightarrow> error + jsnum \<times> jsnum" where
  "calculateRange g =
     (case g of
        [] \<Rightarrow> Inl GridRequired
      | row0 # rest \<Rightarrow> rangeRows g (length row0) (PInf, NInf))"

subsection \<open>The constructor\<close>

text \<open>
  The two \<open>console.warn\<close> calls have no effect on the object and are left out; the
  first one marks the branch that keeps \<open>ymin\<close> and \<open>ymax\<close> as given.
\<close>

definition Field_constructor :: "ConstructorOptions \<Rightarrow> error + Field" where
  "Field_constructor options =
     (let flipY = (opt_deltaY options < 0 \<and> opt_ymin options < opt_ymax options);
          ymin0 = (if flipY then opt_ymin options else min (opt_ymax options) (opt_ymin options));
          ymax0 = (if flipY then opt_ymax options else max (opt_ymax options) (opt_ymin options));
          cont = (\<lfloor>of_int (opt_cols options) * opt_deltaX options\<rfloor> \<ge> (360::int));
          wrapped = (if opt_wrappedX options = Some True then True else opt_xmax options > 180);
          g = buildGrid (opt_us options) (opt_vs options) cont (opt_cols options) (opt_rows options)
      in case calculateRange g of
           Inl e \<Rightarrow> Inl e
         | Inr r \<Rightarrow> Inr \<lparr>xmin = opt_xmin options, xmax = opt_xmax options,
                         ymin = ymin0, ymax = ymax0,
                         cols = opt_cols options, rows = opt_rows options,
                         us = opt_us options, vs = opt_vs options,
                         deltaX = opt_deltaX options, deltaY = opt_deltaY options,
                         grid = g, isContinuous = cont, wrappedX = wrapped, frange = r\<rparr>)"

subsection \<open>Queries\<close>

definition bilinearInterpolateVector ::
  "real \<Rightarrow> real \<Rightarrow> Vector \<Rightarrow> Vector \<Rightarrow> Vector \<Rightarrow> Vector \<Rightarrow> Vector" where
  "bilinearInterpolateVector x y g00 g10 g01 g11 =
     (let rx = 1 - x; ry = 1 - y;
          a = rx * ry; b = x * ry; c = rx * y; d = x * y;
          u = vec_u g00 * a + vec_u g10 * b + vec_u g01 * c + vec_u g11 * d;
          v = vec_v g00 * a + vec_v g10 * b + vec_v g01 * c + vec_v g11 * d
      in mkVector u v)"

definition getWrappedLongitudes :: "Field \<Rightarrow> real \<times> real" where
  "getWrappedLongitudes f =
     (if wrappedX f then
        (if isContinuous f then (- 180, 180) else (xmin f - 360, xmax f - 360))
      else (xmin f, xmax f))"

definition contains :: "Field \<Rightarrow> real \<Rightarrow> real \<Rightarrow> bool" where
  "contains f lon lat =
     (let (xmin0, xmax0) = getWrappedLongitudes f;
          longitudeIn = (lon \<ge> xmin0 \<and> lon \<le> xmax0);
          latitudeIn = (if deltaY f \<ge> 0 then lat \<ge> ymin f \<and> lat \<le> ymax f
                        else lat \<ge> ymax f \<and> lat \<le> ymin f)
      in longitudeIn \<and> latitudeIn)"

text \<open>
  The two quotients are those of the source when \<open>deltaX\<close> and \<open>deltaY\<close> are not zero;
  the theorems about indexes assume it.
\<close>

definition getDecimalIndexes :: "Field \<Rightarrow> real \<Rightarrow> real \<Rightarrow> real \<times> real" where
  "getDecimalIndexes f lon lat =
     (floorMod (lon - xmin f) 360 / deltaX f, (ymax f - lat) / deltaY f)"

definition clampColumnIndex :: "Field \<Rightarrow> int \<Rightarrow> int" where
  "clampColumnIndex f ii =
     (let i = (if ii < 0 then 0 else ii);
          maxCol = cols f - 1
      in if ii > maxCol then maxCol else i)"

definition clampRowIndex :: "Field \<Rightarrow> int \<Rightarrow> int" where
  "clampRowIndex f jj =
     (let j = (if jj < 0 then 0 else jj);
          maxRow = rows f - 1
      in if jj > maxRow then maxRow else j)"

definition getFourSurroundingIndexes :: "Field \<Rightarrow> real \<Rightarrow> real \<Rightarrow> int \<times> int \<times> int \<times> int" where
  "getFourSurroundingIndexes f i j =
     (let fi = \<lfloor>i\<rfloor>;
          ci0 = fi + 1;
          ci1 = (if isContinuous f \<and> ci0 \<ge> cols f then 0 else ci0);
          ci = clampColumnIndex f ci1;
          fj = clampRowIndex f \<lfloor>j\<rfloor>;
          cj = clampRowIndex f (fj + 1)
      in (fi, ci, fj, cj))"

text \<open>
  \<open>getFourSurroundingValues\<close>: a missing row is falsy and gives \<open>null\<close>, like a corner
  that is not valid.
\<close>

definition getFourSurroundingValues ::
  "Field \<Rightarrow> int \<Rightarrow> int \<Rightarrow> int \<Rightarrow> int \<Rightarrow> (Vector \<times> Vector \<times> Vector \<times> Vector) option" where
  "getFourSurroundingValues f fi ci fj cj =
     (case at_index (grid f) fj of
        None \<Rightarrow> None
      | Some row \<Rightarrow>
          (case (cell_at row fi, cell_at row ci) of
             (Vec g00, Vec g10) \<Rightarrow>
               (case at_index (grid f) cj of
                  None \<Rightarrow> None
                | Some row' \<Rightarrow>
                    (case (cell_at row' fi, cell_at row' ci) of
                       (Vec g01, Vec g11) \<Rightarrow> Some (g00, g10, g01, g11)
                     | _ \<Rightarrow> None))
           | _ \<Rightarrow> None))"

definition interpolatePoint :: "Field \<Rightarrow> real \<Rightarrow> real \<Rightarrow> Vector option" where
  "interpolatePoint f i j =
     (let (fi, ci, fj, cj) = getFourSurroundingIndexes f i j
      in case getFourSurroundingValues f fi ci fj cj of
           Some (g00, g10, g01, g11) \<Rightarrow>
             Some (bilinearInterpolateVector (i - of_int fi) (j - of_int fj) g00 g10 g01 g11)
         | None \<Rightarrow> None)"

definition interpolatedValueAt :: "Field \<Rightarrow> real \<Rightarrow> real \<Rightarrow> Vector option" where
  "interpolatedValueAt f lon lat =
     (if \<not> contains f lon lat then None
      else let (i, j) = getDecimalIndexes f lon lat in interpolatePoint f i j)"

text \<open>\<open>this.grid[j][i]\<close>: indexing a missing row throws.\<close>

definition valueAtIndexes :: "Field \<Rightarrow> int \<Rightarrow> int \<Rightarrow> error + cell" where
  "valueAtIndexes f i j =
     (case at_index (grid f) j of
        None \<Rightarrow> Inl TypeError
      | Some row \<Rightarrow> Inr (cell_at row i))"

definition valueAt :: "Field \<Rightarrow> real \<Rightarrow> real \<Rightarrow> error + cell" where
  "valueAt f lon lat =
     (if \<not> contains f lon lat then Inr Null
      else let (i, j) = getDecimalIndexes f lon lat;
               ii = \<lfloor>i\<rfloor>; jj = \<lfloor>j\<rfloor>;
               ci = clampColumnIndex f ii;
               cj = clampRowIndex f jj
           in valueAtIndexes f ci cj)"

definition hasValueAt :: "Field \<Rightarrow> real \<Rightarrow> real \<Rightarrow> error + bool" where
  "hasValueAt f lon lat =
     (case valueAt f lon lat of
        Inl e \<Rightarrow> Inl e
      | Inr value \<Rightarrow> Inr (value \<noteq> Null))"

definition longitudeAtX :: "Field \<Rightarrow> real \<Rightarrow> real" where
  "longitudeAtX f i =
     (let halfXPixel = deltaX f / 2;
          lon = xmin f + halfXPixel + i * deltaX f
      in if wrappedX f then (if lon > 180 then lon - 360 else lon) else lon)"

definition latitudeAtY :: "Field \<Rightarrow> real \<Rightarrow> real" where
  "latitudeAtY f j = (let halfYPixel = deltaY f / 2 in ymax f - halfYPixel - j * deltaY f)"

section \<open>Color index\<close>

text \<open>
  \<open>indexFor\<close> of CesiumParticles.ts. The three numbers may be anything a JavaScript number
  can be, and so may the result: the clamp by \<open>Math.min\<close> and \<open>Math.max\<close> lets NaN
  through.
\<close>

definition indexFor :: "jsnum \<Rightarrow> jsnum \<Rightarrow> jsnum \<Rightarrow> 'a list \<Rightarrow> jsnum" where
  "indexFor m0 mn mx colorScale =
     js_max (Fin 0)
       (js_min (Fin (of_int (int (length colorScale) - 1)))
          (js_round (js_mul (js_div (js_sub m0 mn) (js_sub mx mn))
                            (Fin (of_int (int (length colorScale) - 1))))))"

text \<open>\<open>colorScale[colorIdx]\<close>: \<open>undefined\<close> unless the index is an integer within bounds.\<close>

fun color_at :: "'a list \<Rightarrow> jsnum \<Rightarrow> 'a option" where
  "color_at cs (Fin r) = (if r = of_int \<lfloor>r\<rfloor> then at_index cs \<lfloor>r\<rfloor> else None)"
| "color_at cs a = None"

section \<open>Particles\<close>

text \<open>
  The fields of a particle as CesiumParticles.ts uses them: \<open>x\<close>, \<open>y\<close> and \<open>age\<close> are
  set when the pool is prepared, \<open>xt\<close>, \<open>yt\<close> and \<open>m\<close> are absent until a target is
  staged.
\<close>

record Particle =
  p_x :: real
  p_y :: real
  p_xt :: "real option"
  p_yt :: "real option"
  p_age :: real
  p_m :: "real option"

datatype ColorScale = Single string | Scale "string list"

text \<open>
  What the engine reads: its field and options, the size of the canvas, the three services
  of the host scene (\<open>project\<close>, \<open>unproject\<close>, \<open>intersectsCoordinate\<close>) as functions, and
  the successive results of \<open>Math.random()\<close> as a sequence, of which a counter says how
  many have been drawn.
\<close>

record Engine =
  eng_field :: Field
  maxAge :: real
  velocityScale :: real
  colorScale :: ColorScale
  canvas_width :: int
  canvas_height :: int
  unproject :: "int \<times> int \<Rightarrow> (real \<times> real) option"
  project :: "real \<times> real \<Rightarrow> (real \<times> real) option"
  intersectsCoordinate :: "real \<times> real \<Rightarrow> bool"
  random :: "nat \<Rightarrow> real"

text \<open>\<open>x | 0\<close>: truncate towards zero, then wrap into the signed 32-bit range.\<close>

definition to_int32 :: "real \<Rightarrow> int" where
  "to_int32 r =
     (let t = (if r \<ge> 0 then \<lfloor>r\<rfloor> else \<lceil>r\<rceil>);
          w = t mod 2 ^ 32
      in if w \<ge> 2 ^ 31 then w - 2 ^ 32 else w)"

text \<open>
  \<open>assignRandomPosition\<close>; \<open>r1\<close> and \<open>r2\<close> are the two results of \<open>Math.random()\<close>, in
  the order of the calls. \<open>width || this.cols\<close> is \<open>width\<close> unless it is zero.
\<close>

definition assignRandomPosition ::
  "Field \<Rightarrow> Particle \<Rightarrow> int \<Rightarrow> int \<Rightarrow> (int \<times> int \<Rightarrow> (real \<times> real) option) \<Rightarrow> real \<Rightarrow> real \<Rightarrow> Particle" where
  "assignRandomPosition f particle width height unproj r1 r2 =
     (let i = to_int32 (r1 * of_int (if width \<noteq> 0 then width else cols f));
          j = to_int32 (r2 * of_int (if height \<noteq> 0 then height else rows f))
      in case unproj (i, j) of
           Some (lon, lat) \<Rightarrow> particle\<lparr>p_x := lon, p_y := lat\<rparr>
         | None \<Rightarrow> particle\<lparr>p_x := longitudeAtX f (of_int i), p_y := latitudeAtY f (of_int j)\<rparr>)"

subsection \<open>moveParticles\<close>

text \<open>
  The body of the loop of \<open>moveParticles\<close> in its three parts: the aged-out check, the
  sampling of the field with the advection, and \<open>particle.age++\<close>. \<open>k\<close> counts the
  random numbers drawn so far.
\<close>

definition recycle :: "Engine \<Rightarrow> nat \<Rightarrow> Particle \<Rightarrow> nat \<times> Particle" where
  "recycle env k particle =
     (if p_age particle > maxAge env then
        (k + 2,
         assignRandomPosition (eng_field env) (particle\<lparr>p_age := 0\<rparr>)
           (canvas_width env) (canvas_height env) (unproject env)
           (random env k) (random env (k + 1)))
      else (k, particle))"

definition advect :: "Engine \<Rightarrow> Particle \<Rightarrow> error + Particle" where
  "advect env particle =
     (let x = p_x particle; y = p_y particle
      in case interpolatedValueAt (eng_field env) x y of
           None \<Rightarrow> Inr (particle\<lparr>p_age := maxAge env\<rparr>)
         | Some vector \<Rightarrow>
             (let xt = x + vec_u vector * velocityScale env;
                  yt = y + vec_v vector * velocityScale env
              in case hasValueAt (eng_field env) xt yt of
                   Inl e \<Rightarrow> Inl e
                 | Inr True \<Rightarrow>
                     Inr (particle\<lparr>p_xt := Some xt, p_yt := Some yt, p_m := Some (vec_m vector)\<rparr>)
                 | Inr False \<Rightarrow>
                     Inr (particle\<lparr>p_x := xt, p_y := yt, p_age := maxAge env\<rparr>)))"

definition moveParticle :: "Engine \<Rightarrow> nat \<Rightarrow> Particle \<Rightarrow> error + nat \<times> Particle" where
  "moveParticle env k particle =
     (let (k', p1) = recycle env k particle
      in case advect env p1 of
           Inl e \<Rightarrow> Inl e
         | Inr p2 \<Rightarrow> Inr (k', p2\<lparr>p_age := p_age p2 + 1\<rparr>))"

text \<open>The loop over the pool; an exception ends it.\<close>

fun moveParticles :: "Engine \<Rightarrow> nat \<Rightarrow> Particle list \<Rightarrow> error + nat \<times> Particle list" where
  "moveParticles env k [] = Inr (k, [])"
| "moveParticles env k (particle # rest) =
     (case moveParticle env k particle of
        Inl e \<Rightarrow> Inl e
      | Inr (k', particle') \<Rightarrow>
          (case moveParticles env k' rest of
             Inl e \<Rightarrow> Inl e
           | Inr (k'', rest') \<Rightarrow> Inr (k'', particle' # rest')))"

subsection \<open>drawParticles\<close>

text \<open>
  What reaches the canvas for one particle: the two projected end points of the stroke
  and the stroke style, absent when the color scale has no entry at the computed index.
\<close>

record Segment =
  seg_from :: "real \<times> real"
  seg_to :: "real \<times> real"
  seg_style :: "string option"

text \<open>\<open>!particles[i].xt\<close> holds for an absent coordinate and for zero.\<close>

fun truthy :: "real option \<Rightarrow> bool" where
  "truthy None = False"
| "truthy (Some c) = (c \<noteq> 0)"

definition strokeStyle :: "Engine \<Rightarrow> Particle \<Rightarrow> jsnum \<Rightarrow> jsnum \<Rightarrow> string option" where
  "strokeStyle env particle mn mx =
     (case colorScale env of
        Scale cs \<Rightarrow>
          color_at cs (indexFor (case p_m particle of None \<Rightarrow> NaN | Some v \<Rightarrow> Fin v) mn mx cs)
      | Single c \<Rightarrow> Some c)"

text \<open>
  \<open>drawCoordsParticle\<close>; the staged target \<open>particle.xt!\<close>, \<open>particle.yt!\<close> is passed
  by the caller, which has tested it.
\<close>

definition drawCoordsParticle ::
  "Engine \<Rightarrow> Particle \<Rightarrow> real \<Rightarrow> real \<Rightarrow> jsnum \<Rightarrow> jsnum \<Rightarrow> Particle \<times> Segment list" where
  "drawCoordsParticle env particle xt yt mn mx =
     (let source = (p_x particle, p_y particle);
          target = (xt, yt)
      in if intersectsCoordinate env target \<and> p_age particle \<le> maxAge env then
           (case (project env source, project env target) of
              (Some pointPrev, Some pointNext) \<Rightarrow>
                (particle\<lparr>p_x := xt, p_y := yt\<rparr>,
                 [\<lparr>seg_from = pointPrev, seg_to = pointNext,
                   seg_style = strokeStyle env particle mn mx\<rparr>])
            | _ \<Rightarrow> (particle, []))
         else (particle, []))"

text \<open>The body of the loop of \<open>drawParticles\<close>, with its two \<open>continue\<close>.\<close>

definition drawParticle :: "Engine \<Rightarrow> jsnum \<Rightarrow> jsnum \<Rightarrow> Particle \<Rightarrow> Particle \<times> Segment list" where
  "drawParticle env mn mx particle =
     (if \<not> truthy (p_xt particle) then (particle, [])
      else if \<not> truthy (p_yt particle) then (particle, [])
      else case (p_xt particle, p_yt particle) of
             (Some xt, Some yt) \<Rightarrow> drawCoordsParticle env particle xt yt mn mx
           | _ \<Rightarrow> (particle, []))"

fun drawLoop :: "Engine \<Rightarrow> jsnum \<Rightarrow> jsnum \<Rightarrow> Particle list \<Rightarrow> Particle list \<times> Segment list" where
  "drawLoop env mn mx [] = ([], [])"
| "drawLoop env mn mx (particle # rest) =
     (let (particle', s) = drawParticle env mn mx particle;
          (rest', ss) = drawLoop env mn mx rest
      in (particle' # rest', s @ ss))"

definition drawParticles :: "Engine \<Rightarrow> Particle list \<Rightarrow> Particle list \<times> Segment list" where
  "drawParticles env ps =
     (let r = frange (eng_field env) in drawLoop env (fst r) (snd r) ps)"

text \<open>One tick: \<open>render\<close> moves the pool, then draws it.\<close>

definition render :: "Engine \<Rightarrow> nat \<Rightarrow> Particle list \<Rightarrow> error + nat \<times> Particle list \<times> Segment list" where
  "render env k ps =
     (case moveParticles env k ps of
        Inl e \<Rightarrow> Inl e
      | Inr (k', ps') \<Rightarrow> Inr (k', drawParticles env ps'))"

section \<open>Construction over all sample values\<close>

text \<open>
  \<open>isValid\<close> rejects \<open>null\<close> and \<open>undefined\<close> only, so a sample that is NaN or
  infinite is stored as a \<open>Vector\<close> like any other number. This section follows
  \<open>Vector\<close>, \<open>buildGrid\<close>, \<open>calculateRange\<close> and the constructor once more with the
  samples, the components and the magnitude in \<open>jsnum\<close>; on finite samples the result is
  the one of the definitions above. (Sums and products of finite numbers are finite here:
  overflow to infinity is not modelled.)
\<close>

fun js_sqrt :: "jsnum \<Rightarrow> jsnum" where
  "js_sqrt (Fin a) = (if a < 0 then NaN else Fin (sqrt a))"
| "js_sqrt PInf = PInf"
| "js_sqrt NInf = NaN"
| "js_sqrt NaN = NaN"

text \<open>A number in a condition: zero and NaN are falsy.\<close>

fun js_truthy :: "jsnum \<Rightarrow> bool" where
  "js_truthy (Fin a) = (a \<noteq> 0)"
| "js_truthy NaN = False"
| "js_truthy a = True"

record NumVector =
  num_u :: jsnum
  num_v :: jsnum
  num_m :: jsnum

definition num_magnitude :: "jsnum \<Rightarrow> jsnum \<Rightarrow> jsnum" where
  "num_magnitude u v = js_sqrt (js_add (js_mul u u) (js_mul v v))"

definition newNumVector :: "jsnum \<Rightarrow> jsnum \<Rightarrow> NumVector" where
  "newNumVector u v = \<lparr>num_u = u, num_v = v, num_m = num_magnitude u v\<rparr>"

datatype numcell = NumVec NumVector | NumNull | NumUndefined

fun numValid :: "numcell \<Rightarrow> bool" where
  "numValid (NumVec g) = True"
| "numValid NumNull = False"
| "numValid NumUndefined = False"

definition numcell_at :: "numcell list \<Rightarrow> int \<Rightarrow> numcell" where
  "numcell_at row k = (case at_index row k of None \<Rightarrow> NumUndefined | Some c \<Rightarrow> c)"

definition num_sample_at :: "jsnum option list \<Rightarrow> nat \<Rightarrow> jsnum option" where
  "num_sample_at xs p = (if p < length xs then xs ! p else None)"

record NumOptions =
  nopt_xmin :: real
  nopt_xmax :: real
  nopt_ymin :: real
  nopt_ymax :: real
  nopt_cols :: int
  nopt_rows :: int
  nopt_us :: "jsnum option list"
  nopt_vs :: "jsnum option list"
  nopt_deltaX :: real
  nopt_deltaY :: real
  nopt_wrappedX :: "bool option"

record NumField =
  nf_xmin :: real
  nf_xmax :: real
  nf_ymin :: real
  nf_ymax :: real
  nf_cols :: int
  nf_rows :: int
  nf_us :: "jsnum option list"
  nf_vs :: "jsnum option list"
  nf_deltaX :: real
  nf_deltaY :: real
  nf_grid :: "numcell list list"
  nf_isContinuous :: bool
  nf_wrappedX :: bool
  nf_range :: "jsnum \<times> jsnum"

definition numBuildCell :: "jsnum option list \<Rightarrow> jsnum option list \<Rightarrow> nat \<Rightarrow> numcell" where
  "numBuildCell us0 vs0 p =
     (case (num_sample_at us0 p, num_sample_at vs0 p) of
        (Some u, Some v) \<Rightarrow> NumVec (newNumVector u v)
      | _ \<Rightarrow> NumNull)"

fun numBuildRow :: "jsnum option list \<Rightarrow> jsnum option list \<Rightarrow> nat \<Rightarrow> nat \<Rightarrow> numcell list" where
  "numBuildRow us0 vs0 p 0 = []"
| "numBuildRow us0 vs0 p (Suc n) = numBuildCell us0 vs0 p # numBuildRow us0 vs0 (Suc p) n"

definition numBuiltRow :: "jsnum option list \<Rightarrow> jsnum option list \<Rightarrow> bool \<Rightarrow> nat \<Rightarrow> nat \<Rightarrow> numcell list" where
  "numBuiltRow us0 vs0 cont c p =
     (let row = numBuildRow us0 vs0 p c
      in if cont then row @ [numcell_at row 0] else row)"

fun numBuildRows :: "jsnum option list \<Rightarrow> jsnum option list \<Rightarrow> bool \<Rightarrow> nat \<Rightarrow> nat \<Rightarrow> nat \<Rightarrow> numcell list list" where
  "numBuildRows us0 vs0 cont c p 0 = []"
| "numBuildRows us0 vs0 cont c p (Suc r) =
     numBuiltRow us0 vs0 cont c p # numBuildRows us0 vs0 cont c (p + c) r"

definition numBuildGrid :: "jsnum option list \<Rightarrow> jsnum option list \<Rightarrow> bool \<Rightarrow> int \<Rightarrow> int \<Rightarrow> numcell list list" where
  "numBuildGrid us0 vs0 cont c r = numBuildRows us0 vs0 cont (nat c) 0 (nat r)"

text \<open>
  One cell of the scan: \<open>vec.m || vec.magnitude()\<close> is \<open>vec.m\<close> unless that is zero or
  NaN; \<open>Math.min\<close> and \<open>Math.max\<close> keep a NaN once it has come in.
\<close>

fun numRangeCell :: "numcell \<Rightarrow> jsnum \<times> jsnum \<Rightarrow> error + jsnum \<times> jsnum" where
  "numRangeCell NumNull acc = Inr acc"
| "numRangeCell NumUndefined acc = Inl TypeError"
| "numRangeCell (NumVec g) (mn, mx) =
     (let val = (if js_truthy (num_m g) then num_m g else num_magnitude (num_u g) (num_v g))
      in Inr (js_min val mn, js_max val mx))"

fun numRangeRow :: "numcell list \<Rightarrow> nat list \<Rightarrow> jsnum \<times> jsnum \<Rightarrow> error + jsnum \<times> jsnum" where
  "numRangeRow row [] acc = Inr acc"
| "numRangeRow row (i # is) acc =
     (case numRangeCell (numcell_at row (int i)) acc of
        Inl e \<Rightarrow> Inl e
      | Inr acc' \<Rightarrow> numRangeRow row is acc')"

fun numRangeRows :: "numcell list list \<Rightarrow> nat \<Rightarrow> jsnum \<times> jsnum \<Rightarrow> error + jsnum \<times> jsnum" where
  "numRangeRows [] c acc = Inr acc"
| "numRangeRows (row # rest) c acc =
     (case numRangeRow row [0..<c] acc of
        Inl e \<Rightarrow> Inl e
      | Inr acc' \<Rightarrow> numRangeRows rest c acc')"

definition numCalculateRange :: "numcell list list \<Rightarrow> error + jsnum \<times> jsnum" where
  "numCalculateRange g =
     (case g of
        [] \<Rightarrow> Inl GridRequired
      | row0 # rest \<Rightarrow> numRangeRows g (length row0) (PInf, NInf))"

definition NumField_constructor :: "NumOptions \<Rightarrow> error + NumField" where
  "NumField_constructor options =
     (let flipY = (nopt_deltaY options < 0 \<and> nopt_ymin options < nopt_ymax options);
          ymin0 = (if flipY then nopt_ymin options else min (nopt_ymax options) (nopt_ymin options));
          ymax0 = (if flipY then nopt_ymax options else max (nopt_ymax options) (nopt_ymin options));
          cont = (\<lfloor>of_int (nopt_cols options) * nopt_deltaX options\<rfloor> \<ge> (360::int));
          wrapped = (if nopt_wrappedX options = Some True then True else nopt_xmax options > 180);
          g = numBuildGrid (nopt_us options) (nopt_vs options) cont (nopt_cols options) (nopt_rows options)
      in case numCalculateRange g of
           Inl e \<Rightarrow> Inl e
         | Inr r \<Rightarrow> Inr \<lparr>nf_xmin = nopt_xmin options, nf_xmax = nopt_xmax options,
                         nf_ymin = ymin0, nf_ymax = ymax0,
                         nf_cols = nopt_cols options, nf_rows = nopt_rows options,
                         nf_us = nopt_us options, nf_vs = nopt_vs options,
                         nf_deltaX = nopt_deltaX options, nf_deltaY = nopt_deltaY options,
                         nf_grid = g, nf_isContinuous = cont, nf_wrappedX = wrapped, nf_range = r\<rparr>)"

text \<open>The finite values among all values.\<close>

definition embedVector :: "Vector \<Rightarrow> NumVector" where
  "embedVector g = \<lparr>num_u = Fin (vec_u g), num_v = Fin (vec_v g), num_m = Fin (vec_m g)\<rparr>"

fun embedCell :: "cell \<Rightarrow> numcell" where
  "embedCell (Vec g) = NumVec (embedVector g)"
| "embedCell Null = NumNull"
| "embedCell Undefined = NumUndefined"

definition embedOptions :: "ConstructorOptions \<Rightarrow> NumOptions" where
  "embedOptions options =
     \<lparr>nopt_xmin = opt_xmin options, nopt_xmax = opt_xmax options,
      nopt_ymin = opt_ymin options, nopt_ymax = opt_ymax options,
      nopt_cols = opt_cols options, nopt_rows = opt_rows options,
      nopt_us = map (map_option Fin) (opt_us options),
      nopt_vs = map (map_option Fin) (opt_vs options),
      nopt_deltaX = opt_deltaX options, nopt_deltaY = opt_deltaY options,
      nopt_wrappedX = opt_wrappedX options\<rparr>"

definition embedField :: "Field \<Rightarrow> NumField" where
  "embedField f =
     \<lparr>nf_xmin = xmin f, nf_xmax = xmax f, nf_ymin = ymin f, nf_ymax = ymax f,
      nf_cols = cols f, nf_rows = rows f,
      nf_us = map (map_option Fin) (us f), nf_vs = map (map_option Fin) (vs f),
      nf_deltaX = deltaX f, nf_deltaY = deltaY f,
      nf_grid = map (map embedCell) (grid f),
      nf_isContinuous = isContinuous f, nf_wrappedX = wrappedX f, nf_range = frange f\<rparr>"

text \<open>
  A grid with a cell that holds a vector, and a grid with a vector whose stored magnitude
  is NaN.
\<close>

definition hasNumVector :: "numcell list list \<Rightarrow> bool" where
  "hasNumVector g = list_ex numValid (concat g)"

fun nanCell :: "numcell \<Rightarrow> bool" where
  "nanCell (NumVec g) = (num_m g = NaN)"
| "nanCell NumNull = False"
| "nanCell NumUndefined = False"

definition hasNaNMagnitude :: "numcell list list \<Rightarrow> bool" where
  "hasNaNMagnitude g = list_ex nanCell (concat g)"

text \<open>One row of two cells, with the samples \<open>(1, 0)\<close> and \<open>(+\<infinity>, 0)\<close>.\<close>

definition infiniteSampleOptions :: NumOptions where
  "infiniteSampleOptions =
     \<lparr>nopt_xmin = 0, nopt_xmax = 2, nopt_ymin = 0, nopt_ymax = 1,
      nopt_cols = 2, nopt_rows = 1,
      nopt_us = [Some (Fin 1), Some PInf],
      nopt_vs = [Some (Fin 0), Some (Fin 0)],
      nopt_deltaX = 1, nopt_deltaY = 1, nopt_wrappedX = None\<rparr>"

text \<open>The object that \<open>new Field(infiniteSampleOptions)\<close> builds, written out.\<close>

definition infiniteSampleField :: NumField where
  "infiniteSampleField =
     \<lparr>nf_xmin = 0, nf_xmax = 2, nf_ymin = 0, nf_ymax = 1, nf_cols = 2, nf_rows = 1,
      nf_us = [Some (Fin 1), Some PInf],
      nf_vs = [Some (Fin 0), Some (Fin 0)],
      nf_deltaX = 1, nf_deltaY = 1,
      nf_grid = [[NumVec \<lparr>num_u = Fin 1, num_v = Fin 0, num_m = Fin 1\<rparr>,
                  NumVec \<lparr>num_u = PInf, num_v = Fin 0, num_m = PInf\<rparr>]],
      nf_isContinuous = False, nf_wrappedX = False, nf_range = (Fin 1, PInf)\<rparr>"

section \<open>Example data\<close>

text \<open>
  The field of the example of the specification: two columns and two rows over
  \<open>[0, 2] \<times> [0, 2]\<close> with cells of size one, holding four orthogonal unit vectors.
\<close>

definition exampleOptions :: ConstructorOptions where
  "exampleOptions =
     \<lparr>opt_xmin = 0, opt_xmax = 2, opt_ymin = 0, opt_ymax = 2,
      opt_cols = 2, opt_rows = 2,
      opt_us = [Some 1, Some 0, Some 0, Some (- 1)],
      opt_vs = [Some 0, Some 1, Some (- 1), Some 0],
      opt_deltaX = 1, opt_deltaY = 1, opt_wrappedX = None\<rparr>"

text \<open>The object that \<open>new Field(exampleOptions)\<close> builds, written out.\<close>

definition exampleField :: Field where
  "exampleField =
     \<lparr>xmin = 0, xmax = 2, ymin = 0, ymax = 2, cols = 2, rows = 2,
      us = [Some 1, Some 0, Some 0, Some (- 1)],
      vs = [Some 0, Some 1, Some (- 1), Some 0],
      deltaX = 1, deltaY = 1,
      grid = [[Vec \<lparr>vec_u = 1, vec_v = 0, vec_m = 1\<rparr>, Vec \<lparr>vec_u = 0, vec_v = 1, vec_m = 1\<rparr>],
              [Vec \<lparr>vec_u = 0, vec_v = - 1, vec_m = 1\<rparr>, Vec \<lparr>vec_u = - 1, vec_v = 0, vec_m = 1\<rparr>]],
      isContinuous = False, wrappedX = False, frange = (Fin 1, Fin 1)\<rparr>"

text \<open>
  An engine over the example field: particles live ten ticks and move half a flow unit
  per tick, every pixel unprojects to the node \<open>(0, 2)\<close>, every coordinate is visible
  and projects to itself, and \<open>Math.random()\<close> always returns \<open>0\<close>.
\<close>

definition exampleEngine :: Engine where
  "exampleEngine =
     \<lparr>eng_field = exampleField, maxAge = 10, velocityScale = 1 / 2,
      colorScale = Single ''white'', canvas_width = 0, canvas_height = 0,
      unproject = (\<lambda>pixel. Some (0, 2)),
      project = (\<lambda>coordinate. Some coordinate),
      intersectsCoordinate = (\<lambda>coordinate. True),
      random = (\<lambda>n. 0)\<rparr>"

section \<open>Notions used in the properties\<close>

text \<open>A grid with at least one cell that holds a vector.\<close>

definition hasVector :: "cell list list \<Rightarrow> bool" where
  "hasVector g = list_ex isValid (concat g)"

text \<open>
  The cell in column \<open>col\<close> of row \<open>row\<close> of the grid, \<open>undefined\<close> when the grid has
  no such row or the row no such column.
\<close>

definition gridCell :: "Field \<Rightarrow> int \<Rightarrow> int \<Rightarrow> cell" where
  "gridCell f col row = (case at_index (grid f) row of None \<Rightarrow> Undefined | Some r \<Rightarrow> cell_at r col)"


section \<open>Properties\<close>

subsection \<open>The color index on an ordered range\<close>

lemma js_clamp_Fin:
  "js_max (Fin 0) (js_min (Fin (of_int L)) (Fin (of_int k))) = Fin (of_int (max 0 (min L k)))"
  by (simp add: max_def min_def)

lemma indexFor_Fin:
  assumes "mn \<noteq> mx"
  shows "indexFor (Fin m0) (Fin mn) (Fin mx) cs =
         Fin (of_int (max 0 (min (int (length cs) - 1)
                \<lfloor>(m0 - mn) / (mx - mn) * of_int (int (length cs) - 1) + 1 / 2\<rfloor>)))"
  using assms unfolding indexFor_def js_sub_def
  by (simp only: js_neg.simps js_add.simps js_div.simps js_mul.simps js_round.simps js_clamp_Fin) simp

text \<open>
  Claim C5, as the code has it. For finite \<open>min < max\<close> and a color scale that is not
  empty, \<open>indexFor\<close> is \<open>0\<close> at \<open>m = min\<close> and \<open>length - 1\<close> at \<open>m = max\<close>, it is
  an integer between \<open>0\<close> and \<open>length - 1\<close> for every finite \<open>m\<close>, and it does not
  decrease when \<open>m\<close> grows.
\<close>

theorem indexFor_ordered_range:
  assumes "mn < mx" and "cs \<noteq> []"
  shows "indexFor (Fin mn) (Fin mn) (Fin mx) cs = Fin 0 \<and>
         indexFor (Fin mx) (Fin mn) (Fin mx) cs = Fin (of_int (int (length cs) - 1)) \<and>
         (\<exists>k. indexFor (Fin m0) (Fin mn) (Fin mx) cs = Fin (of_int k) \<and> 0 \<le> k \<and> k \<le> int (length cs) - 1) \<and>
         (m0 \<le> m1 \<longrightarrow> js_le (indexFor (Fin m0) (Fin mn) (Fin mx) cs) (indexFor (Fin m1) (Fin mn) (Fin mx) cs))"
proof -
  let ?L = "int (length cs) - 1"
  have ne: "mn \<noteq> mx" using assms(1) by simp
  have L0: "0 \<le> ?L" using assms(2) by (cases cs) simp_all
  have d: "0 < mx - mn" using assms(1) by simp
  have at_min: "indexFor (Fin mn) (Fin mn) (Fin mx) cs = Fin 0"
    using L0 by (simp add: indexFor_Fin [OF ne])
  have "\<lfloor>real_of_int ?L + 1 / 2\<rfloor> = ?L" by linarith
  then have at_max: "indexFor (Fin mx) (Fin mn) (Fin mx) cs = Fin (of_int ?L)"
    using L0 d by (simp add: indexFor_Fin [OF ne])
  have in_range: "\<exists>k. indexFor (Fin m0) (Fin mn) (Fin mx) cs = Fin (of_int k) \<and> 0 \<le> k \<and> k \<le> ?L"
    using L0 by (subst indexFor_Fin [OF ne]) (rule exI [where x = "max 0 (min ?L \<lfloor>(m0 - mn) / (mx - mn) * of_int ?L + 1 / 2\<rfloor>)"], simp)
  have mono: "js_le (indexFor (Fin m0) (Fin mn) (Fin mx) cs) (indexFor (Fin m1) (Fin mn) (Fin mx) cs)"
    if le: "m0 \<le> m1"
  proof -
    have "(m0 - mn) / (mx - mn) \<le> (m1 - mn) / (mx - mn)"
      using le d by (simp add: divide_right_mono)
    moreover have "0 \<le> real_of_int ?L" using L0 by (simp only: of_int_0_le_iff)
    ultimately have "(m0 - mn) / (mx - mn) * of_int ?L \<le> (m1 - mn) / (mx - mn) * of_int ?L"
      by (rule mult_right_mono)
    then have "\<lfloor>(m0 - mn) / (mx - mn) * of_int ?L + 1 / 2\<rfloor> \<le> \<lfloor>(m1 - mn) / (mx - mn) * of_int ?L + 1 / 2\<rfloor>"
      by (intro floor_mono) simp
    then show ?thesis
      by (simp add: indexFor_Fin [OF ne] del: of_int_diff of_int_of_nat_eq)
  qed
  show ?thesis using at_min at_max in_range mono by blast
qed

theorem indexFor_ordered_range_witness:
  "indexFor (Fin 1) (Fin 1) (Fin 3) [''blue'', ''green'', ''red''] = Fin 0 \<and>
   indexFor (Fin 3) (Fin 1) (Fin 3) [''blue'', ''green'', ''red''] = Fin 2 \<and>
   js_le (indexFor (Fin 2) (Fin 1) (Fin 3) [''blue'', ''green'', ''red''])
         (indexFor (Fin 3) (Fin 1) (Fin 3) [''blue'', ''green'', ''red''])"
proof -
  have h1: "(1::real) < 3" by simp
  have h2: "[''blue'', ''green'', ''red''] \<noteq> []" by simp
  have h3: "(2::real) \<le> 3" by simp
  have L: "real_of_int (int (length [''blue'', ''green'', ''red'']) - 1) = 2" by simp
  note t = indexFor_ordered_range [OF h1 h2, of 2 3, unfolded L]
  from t h3 show ?thesis by blast
qed

text \<open>
  Claim C5, as the specification states it, fails when \<open>min = max\<close>: the quotient is a
  division by zero. With \<open>m = min = max = 1\<close> and a scale of two colors the result is NaN,
  and with \<open>m = 2\<close> it is the last index \<open>1\<close>; neither is \<open>0\<close>.
\<close>

theorem indexFor_degenerate_range:
  "indexFor (Fin 1) (Fin 1) (Fin 1) [''blue'', ''red''] = NaN \<and>
   indexFor (Fin 2) (Fin 1) (Fin 1) [''blue'', ''red''] = Fin 1"
  by (simp add: indexFor_def js_sub_def js_inf_def)

subsection \<open>The example field\<close>

lemmas field_query_defs =
  interpolatedValueAt_def contains_def getWrappedLongitudes_def getDecimalIndexes_def floorMod_def
  interpolatePoint_def getFourSurroundingIndexes_def clampColumnIndex_def clampRowIndex_def
  getFourSurroundingValues_def at_index_def cell_at_def bilinearInterpolateVector_def
  mkVector_def magnitude_def valueAt_def valueAtIndexes_def hasValueAt_def
  longitudeAtX_def latitudeAtY_def Let_def

lemma exampleField_constructed: "Field_constructor exampleOptions = Inr exampleField"
  by (simp add: Field_constructor_def exampleOptions_def exampleField_def buildGrid_def
      numeral_2_eq_2 builtRow_def buildCell_def sample_at_def mkVector_def magnitude_def
      calculateRange_def upt_rec cell_at_def at_index_def Let_def)

text \<open>
  Claim C1, as the code has it. At \<open>(1, 1)\<close> the decimal indexes are \<open>(1, 1)\<close>, the
  four corners all clamp to the cell of column 1 and row 1, and the result is that cell:
  \<open>u = -1\<close>, \<open>v = 0\<close>, magnitude \<open>1\<close>. The average of the four cells, \<open>u = 0\<close>,
  \<open>v = 0\<close>, magnitude \<open>0\<close>, is the value at \<open>(1/2, 3/2)\<close>, midway between the four
  grid nodes.
\<close>

theorem example_center_value:
  "Field_constructor exampleOptions = Inr exampleField \<and>
   interpolatedValueAt exampleField 1 1 = Some \<lparr>vec_u = - 1, vec_v = 0, vec_m = 1\<rparr> \<and>
   interpolatedValueAt exampleField (1 / 2) (3 / 2) = Some \<lparr>vec_u = 0, vec_v = 0, vec_m = 0\<rparr>"
  by (simp add: exampleField_constructed) (simp add: exampleField_def field_query_defs)

text \<open>
  Claim C1, as the specification states it, fails: on the example field
  \<open>interpolatedValueAt(1, 1)\<close> is not the vector \<open>u = 0\<close>, \<open>v = 0\<close>, magnitude \<open>0\<close>.
\<close>

theorem example_center_not_average:
  "Field_constructor exampleOptions = Inr exampleField \<and>
   interpolatedValueAt exampleField 1 1 \<noteq> Some \<lparr>vec_u = 0, vec_v = 0, vec_m = 0\<rparr>"
  by (simp add: exampleField_constructed) (simp add: exampleField_def field_query_defs)

subsection \<open>The grid as built\<close>

lemma length_buildRow: "length (buildRow us0 vs0 p n) = n"
  by (induction n arbitrary: p) simp_all

lemma buildRow_eq_Nil: "buildRow us0 vs0 p c = [] \<longleftrightarrow> c = 0"
  by (cases c) simp_all

lemma nth_buildRow: "i < n \<Longrightarrow> buildRow us0 vs0 p n ! i = buildCell us0 vs0 (p + i)"
proof (induction n arbitrary: p i)
  case 0
  then show ?case by simp
next
  case (Suc n)
  then show ?case by (cases i) simp_all
qed

lemma length_buildRows: "length (buildRows us0 vs0 cont c p r) = r"
  by (induction r arbitrary: p) simp_all

lemma nth_buildRows:
  "j < r \<Longrightarrow> buildRows us0 vs0 cont c p r ! j = builtRow us0 vs0 cont c (p + j * c)"
proof (induction r arbitrary: p j)
  case 0
  then show ?case by simp
next
  case (Suc r)
  show ?case
  proof (cases j)
    case 0
    then show ?thesis by simp
  next
    case (Suc j')
    with Suc.prems have "j' < r" by simp
    from Suc.IH [OF this, of "p + c"] Suc show ?thesis
      by (simp add: add.assoc)
  qed
qed

lemma set_buildRows:
  "row \<in> set (buildRows us0 vs0 cont c p r) \<Longrightarrow> \<exists>q. row = builtRow us0 vs0 cont c q"
  by (auto simp: in_set_conv_nth length_buildRows nth_buildRows)

lemma length_builtRow: "length (builtRow us0 vs0 cont c p) = (if cont then Suc c else c)"
  by (simp add: builtRow_def Let_def length_buildRow)

lemma buildCell_cases: "buildCell us0 vs0 p = Null \<or> (\<exists>u v. buildCell us0 vs0 p = Vec (mkVector u v))"
  by (auto simp: buildCell_def split: option.splits)

lemma cell_at_builtRow:
  "0 \<le> i \<Longrightarrow> i < int c \<Longrightarrow> cell_at (builtRow us0 vs0 cont c p) i = buildCell us0 vs0 (p + nat i)"
  by (simp add: cell_at_def at_index_def builtRow_def Let_def length_buildRow nth_append nth_buildRow)

lemma cell_at_builtRow_dup:
  "cont \<Longrightarrow> 0 < c \<Longrightarrow> cell_at (builtRow us0 vs0 cont c p) (int c) = buildCell us0 vs0 p"
  by (simp add: cell_at_def at_index_def builtRow_def Let_def length_buildRow nth_append nth_buildRow buildRow_eq_Nil)

lemma cell_at_builtRow_past:
  "\<not> cont \<Longrightarrow> int c \<le> i \<Longrightarrow> cell_at (builtRow us0 vs0 cont c p) i = Undefined"
  by (simp add: cell_at_def at_index_def builtRow_def Let_def length_buildRow)

lemma builtRow_no_Undefined:
  "0 < c \<Longrightarrow> Undefined \<notin> set (builtRow us0 vs0 cont c p)"
proof
  assume c: "0 < c" and "Undefined \<in> set (builtRow us0 vs0 cont c p)"
  then obtain i where i: "i < length (builtRow us0 vs0 cont c p)"
    and u: "builtRow us0 vs0 cont c p ! i = Undefined"
    by (auto simp: in_set_conv_nth)
  show False
  proof (cases "i < c")
    case True
    then have "builtRow us0 vs0 cont c p ! i = buildCell us0 vs0 (p + i)"
      by (simp add: builtRow_def Let_def nth_append length_buildRow nth_buildRow)
    with u buildCell_cases [of us0 vs0 "p + i"] show False by auto
  next
    case False
    with i have ic: "i = c" and cont: cont
      by (auto simp: length_builtRow split: if_splits)
    then have "builtRow us0 vs0 cont c p ! i = buildCell us0 vs0 p"
      using c by (simp add: builtRow_def Let_def nth_append length_buildRow cell_at_def at_index_def nth_buildRow buildRow_eq_Nil)
    with u buildCell_cases [of us0 vs0 p] show False by auto
  qed
qed

lemma Field_constructor_InrD:
  assumes "Field_constructor options = Inr f"
  shows "xmin f = opt_xmin options" and "xmax f = opt_xmax options"
    and "cols f = opt_cols options" and "rows f = opt_rows options"
    and "deltaX f = opt_deltaX options" and "deltaY f = opt_deltaY options"
    and "isContinuous f = (360 \<le> \<lfloor>of_int (opt_cols options) * opt_deltaX options\<rfloor>)"
    and "grid f = buildGrid (opt_us options) (opt_vs options) (isContinuous f) (cols f) (rows f)"
    and "calculateRange (grid f) = Inr (frange f)"
    and "ymin f = (if opt_deltaY options < 0 \<and> opt_ymin options < opt_ymax options
                   then opt_ymin options else min (opt_ymax options) (opt_ymin options))"
    and "ymax f = (if opt_deltaY options < 0 \<and> opt_ymin options < opt_ymax options
                   then opt_ymax options else max (opt_ymax options) (opt_ymin options))"
    and "us f = opt_us options" and "vs f = opt_vs options"
  using assms by (auto simp: Field_constructor_def Let_def split: sum.splits)

subsection \<open>The scan of calculateRange\<close>

lemma length_numBuildRow: "length (numBuildRow us0 vs0 p n) = n"
  by (induction n arbitrary: p) simp_all

lemma numBuildRow_eq_Nil: "numBuildRow us0 vs0 p c = [] \<longleftrightarrow> c = 0"
  by (cases c) simp_all

lemma nth_numBuildRow: "i < n \<Longrightarrow> numBuildRow us0 vs0 p n ! i = numBuildCell us0 vs0 (p + i)"
proof (induction n arbitrary: p i)
  case 0
  then show ?case by simp
next
  case (Suc n)
  then show ?case by (cases i) simp_all
qed

lemma length_numBuildRows: "length (numBuildRows us0 vs0 cont c p r) = r"
  by (induction r arbitrary: p) simp_all

lemma set_numBuildRows:
  "row \<in> set (numBuildRows us0 vs0 cont c p r) \<Longrightarrow> \<exists>q. row = numBuiltRow us0 vs0 cont c q"
  by (induction r arbitrary: p) auto

lemma length_numBuiltRow: "length (numBuiltRow us0 vs0 cont c p) = (if cont then Suc c else c)"
  by (simp add: numBuiltRow_def Let_def length_numBuildRow)

text \<open>Every cell of a built row of at least one column is \<open>null\<close> or a new vector.\<close>

lemma numBuildCell_cases:
  "numBuildCell us0 vs0 p = NumNull \<or> (\<exists>u v. numBuildCell us0 vs0 p = NumVec (newNumVector u v))"
  by (auto simp: numBuildCell_def split: option.splits)

lemma numBuiltRow_cells:
  assumes "0 < c" and "x \<in> set (numBuiltRow us0 vs0 cont c p)"
  shows "x = NumNull \<or> (\<exists>u v. x = NumVec (newNumVector u v))"
proof -
  from assms(2) obtain i where i: "i < length (numBuiltRow us0 vs0 cont c p)"
    and x: "numBuiltRow us0 vs0 cont c p ! i = x"
    by (auto simp: in_set_conv_nth)
  show ?thesis
  proof (cases "i < c")
    case True
    then have "numBuiltRow us0 vs0 cont c p ! i = numBuildCell us0 vs0 (p + i)"
      by (simp add: numBuiltRow_def Let_def nth_append length_numBuildRow nth_numBuildRow)
    with x numBuildCell_cases [of us0 vs0 "p + i"] show ?thesis by auto
  next
    case False
    with i have ic: "i = c" and cont: cont
      by (auto simp: length_numBuiltRow split: if_splits)
    then have "numBuiltRow us0 vs0 cont c p ! i = numBuildCell us0 vs0 p"
      using assms(1)
      by (simp add: numBuiltRow_def Let_def nth_append length_numBuildRow numcell_at_def
          at_index_def nth_numBuildRow numBuildRow_eq_Nil)
    with x numBuildCell_cases [of us0 vs0 p] show ?thesis by auto
  qed
qed

lemma numBuildGrid_rows:
  assumes "row \<in> set (numBuildGrid us0 vs0 cont c r)"
  shows "length row = (if cont then Suc (nat c) else nat c)"
    and "0 < c \<Longrightarrow> x \<in> set row \<Longrightarrow> x = NumNull \<or> (\<exists>u v. x = NumVec (newNumVector u v))"
proof -
  from assms obtain q where row: "row = numBuiltRow us0 vs0 cont (nat c) q"
    unfolding numBuildGrid_def by (blast dest: set_numBuildRows)
  show "length row = (if cont then Suc (nat c) else nat c)"
    by (simp add: row length_numBuiltRow)
  show "x = NumNull \<or> (\<exists>u v. x = NumVec (newNumVector u v))" if "0 < c" "x \<in> set row"
    using that numBuiltRow_cells [of "nat c" x us0 vs0 cont q] by (simp add: row)
qed

lemma numcell_at_nth: "i < length row \<Longrightarrow> numcell_at row (int i) = row ! i"
  by (simp add: numcell_at_def at_index_def)

text \<open>
  The scan over cells whose stored magnitude is the computed one and is not NaN: the
  infinities as long as no vector has been seen, two bounds in order from the first vector
  on.
\<close>

lemma js_min_max_start:
  "m \<noteq> NaN \<Longrightarrow> js_le (js_min m PInf) (js_max m NInf)"
  by (cases m) simp_all

lemma js_min_max_step:
  "m \<noteq> NaN \<Longrightarrow> js_le mn mx \<Longrightarrow> js_le (js_min m mn) (js_max m mx)"
  by (cases m; cases mn; cases mx) simp_all

lemma numRangeCell_inv:
  assumes "numRangeCell c acc = Inr acc'"
      and "if seen then js_le (fst acc) (snd acc) else acc = (PInf, NInf)"
      and "c = NumNull \<or> (\<exists>u v. c = NumVec (newNumVector u v))"
      and "\<not> nanCell c"
  shows "if seen \<or> numValid c then js_le (fst acc') (snd acc') else acc' = (PInf, NInf)"
proof (cases c)
  case (NumVec g)
  with assms(3) obtain u v where g: "g = newNumVector u v" by auto
  then have m: "num_m g = num_magnitude (num_u g) (num_v g)"
    by (simp add: newNumVector_def)
  from assms(4) NumVec have nn: "num_m g \<noteq> NaN" by simp
  obtain mn mx where acc: "acc = (mn, mx)" by (cases acc)
  from assms(1) NumVec acc m have acc': "acc' = (js_min (num_m g) mn, js_max (num_m g) mx)"
    by (auto simp: Let_def)
  show ?thesis
  proof (cases seen)
    case True
    with assms(2) acc have "js_le mn mx" by simp
    from js_min_max_step [OF nn this] NumVec acc' show ?thesis by simp
  next
    case False
    with assms(2) acc have "mn = PInf" "mx = NInf" by simp_all
    with js_min_max_start [OF nn] NumVec acc' show ?thesis by simp
  qed
next
  case NumNull
  with assms show ?thesis by (auto split: if_splits)
next
  case NumUndefined
  with assms show ?thesis by simp
qed

lemma numRangeRow_inv:
  assumes "numRangeRow row is acc = Inr acc'"
      and "if seen then js_le (fst acc) (snd acc) else acc = (PInf, NInf)"
      and "\<forall>i\<in>set is. numcell_at row (int i) = NumNull
             \<or> (\<exists>u v. numcell_at row (int i) = NumVec (newNumVector u v))"
      and "\<forall>i\<in>set is. \<not> nanCell (numcell_at row (int i))"
  shows "if seen \<or> (\<exists>i\<in>set is. numValid (numcell_at row (int i)))
         then js_le (fst acc') (snd acc') else acc' = (PInf, NInf)"
  using assms
proof (induction "is" arbitrary: acc seen)
  case Nil
  then show ?case by (auto split: if_splits)
next
  case (Cons i "is")
  from Cons.prems(1) obtain acc1 where c: "numRangeCell (numcell_at row (int i)) acc = Inr acc1"
    and r: "numRangeRow row is acc1 = Inr acc'"
    by (auto split: sum.splits)
  have 1: "if seen \<or> numValid (numcell_at row (int i)) then js_le (fst acc1) (snd acc1)
           else acc1 = (PInf, NInf)"
    using Cons.prems(3,4) by (intro numRangeCell_inv [OF c Cons.prems(2)]) simp_all
  from Cons.IH [OF r 1] Cons.prems(3,4)
  show ?case by (simp add: disj_ac)
qed

lemma numRangeRows_inv:
  assumes "numRangeRows g c acc = Inr acc'"
      and "if seen then js_le (fst acc) (snd acc) else acc = (PInf, NInf)"
      and "\<forall>row\<in>set g. \<forall>i\<in>set [0..<c]. numcell_at row (int i) = NumNull
             \<or> (\<exists>u v. numcell_at row (int i) = NumVec (newNumVector u v))"
      and "\<forall>row\<in>set g. \<forall>i\<in>set [0..<c]. \<not> nanCell (numcell_at row (int i))"
  shows "if seen \<or> (\<exists>row\<in>set g. \<exists>i\<in>set [0..<c]. numValid (numcell_at row (int i)))
         then js_le (fst acc') (snd acc') else acc' = (PInf, NInf)"
  using assms
proof (induction g arbitrary: acc seen)
  case Nil
  then show ?case by (auto split: if_splits)
next
  case (Cons row g)
  from Cons.prems(1) obtain acc1 where c: "numRangeRow row [0..<c] acc = Inr acc1"
    and r: "numRangeRows g c acc1 = Inr acc'"
    by (auto split: sum.splits)
  have 1: "if seen \<or> (\<exists>i\<in>set [0..<c]. numValid (numcell_at row (int i)))
           then js_le (fst acc1) (snd acc1) else acc1 = (PInf, NInf)"
    using Cons.prems(3,4) by (intro numRangeRow_inv [OF c Cons.prems(2)]) simp_all
  from Cons.IH [OF r 1] Cons.prems(3,4)
  show ?case by (simp add: disj_ac)
qed

lemma numRangeRow_succeeds:
  assumes "\<forall>i\<in>set is. numcell_at row (int i) \<noteq> NumUndefined"
  shows "\<exists>acc'. numRangeRow row is acc = Inr acc'"
  using assms
proof (induction "is" arbitrary: acc)
  case Nil
  then show ?case by simp
next
  case (Cons i "is")
  then have "numcell_at row (int i) \<noteq> NumUndefined" by simp
  then obtain acc1 where "numRangeCell (numcell_at row (int i)) acc = Inr acc1"
    by (cases "numcell_at row (int i)"; cases acc) (simp_all add: Let_def)
  with Cons show ?case by simp
qed

lemma numRangeRows_succeeds:
  assumes "\<forall>row\<in>set g. \<forall>i\<in>set [0..<c]. numcell_at row (int i) \<noteq> NumUndefined"
  shows "\<exists>acc'. numRangeRows g c acc = Inr acc'"
  using assms
proof (induction g arbitrary: acc)
  case Nil
  then show ?case by simp
next
  case (Cons row g)
  then have "\<forall>i\<in>set [0..<c]. numcell_at row (int i) \<noteq> NumUndefined" by simp
  from numRangeRow_succeeds [OF this] obtain acc1 where "numRangeRow row [0..<c] acc = Inr acc1"
    by blast
  with Cons show ?case by simp
qed

lemma num_in_row:
  "(\<exists>i\<in>set [0..<length row]. P (numcell_at row (int i))) \<longleftrightarrow> list_ex P row"
proof
  assume "\<exists>i\<in>set [0..<length row]. P (numcell_at row (int i))"
  then obtain i where "i < length row" "P (row ! i)"
    by (auto simp: numcell_at_nth)
  then show "list_ex P row"
    unfolding list_ex_iff using nth_mem by blast
next
  assume "list_ex P row"
  then obtain i where "i < length row" "P (row ! i)"
    by (auto simp: list_ex_iff in_set_conv_nth)
  then have "i \<in> set [0..<length row]" "P (numcell_at row (int i))"
    by (simp_all add: numcell_at_nth)
  then show "\<exists>i\<in>set [0..<length row]. P (numcell_at row (int i))" by blast
qed


lemma numCalculateRange_built:
  assumes "numCalculateRange (numBuildGrid us0 vs0 cont c r) = Inr rg"
      and "\<not> hasNaNMagnitude (numBuildGrid us0 vs0 cont c r)"
  shows "if hasNumVector (numBuildGrid us0 vs0 cont c r) then js_le (fst rg) (snd rg)
         else rg = (PInf, NInf)"
proof -
  let ?g = "numBuildGrid us0 vs0 cont c r"
  let ?n = "if cont then Suc (nat c) else nat c"
  from assms(1) obtain row0 rest where g: "?g = row0 # rest"
    by (auto simp: numCalculateRange_def split: list.splits)
  then have row0: "row0 \<in> set ?g" by simp
  then have n: "length row0 = ?n" by (rule numBuildGrid_rows)
  from assms(1) g n have scan: "numRangeRows ?g ?n (PInf, NInf) = Inr rg"
    by (simp add: numCalculateRange_def)
  have len: "length row = ?n" if "row \<in> set ?g" for row
    using numBuildGrid_rows(1) [OF that] .
  have at: "numcell_at row (int i) \<in> set row" if "row \<in> set ?g" "i \<in> set [0..<?n]" for row i
    using that len [OF that(1)] by (simp add: numcell_at_nth)
  have pushed: "0 < c" if cont
  proof (rule ccontr)
    assume "\<not> 0 < c"
    then have c: "nat c = 0" by simp
    from row0 obtain q where "row0 = numBuiltRow us0 vs0 cont (nat c) q"
      unfolding numBuildGrid_def by (blast dest: set_numBuildRows)
    with that c have "row0 = [NumUndefined]"
      by (simp add: numBuiltRow_def numcell_at_def at_index_def)
    with scan g that c show False
      by (simp add: numcell_at_def at_index_def)
  qed
  have built: "\<forall>row\<in>set ?g. \<forall>i\<in>set [0..<?n]. numcell_at row (int i) = NumNull
             \<or> (\<exists>u v. numcell_at row (int i) = NumVec (newNumVector u v))"
  proof (intro ballI)
    fix row i assume row: "row \<in> set ?g" and i: "i \<in> set [0..<?n]"
    have "0 < c" using pushed i by (cases cont) auto
    from numBuildGrid_rows(2) [OF row this at [OF row i]]
    show "numcell_at row (int i) = NumNull
             \<or> (\<exists>u v. numcell_at row (int i) = NumVec (newNumVector u v))" .
  qed
  have nonan: "\<forall>row\<in>set ?g. \<forall>i\<in>set [0..<?n]. \<not> nanCell (numcell_at row (int i))"
  proof (intro ballI)
    fix row i assume row: "row \<in> set ?g" and i: "i \<in> set [0..<?n]"
    from at [OF row i] row have "numcell_at row (int i) \<in> set (concat ?g)" by auto
    with assms(2) show "\<not> nanCell (numcell_at row (int i))"
      by (auto simp: hasNaNMagnitude_def list_ex_iff)
  qed
  from numRangeRows_inv [OF scan _ built nonan, of False]
  have "if \<exists>row\<in>set ?g. \<exists>i\<in>set [0..<?n]. numValid (numcell_at row (int i))
        then js_le (fst rg) (snd rg) else rg = (PInf, NInf)"
    by simp
  moreover have "(\<exists>row\<in>set ?g. \<exists>i\<in>set [0..<?n]. numValid (numcell_at row (int i)))
      \<longleftrightarrow> hasNumVector ?g"
  proof -
    have "(\<exists>i\<in>set [0..<?n]. numValid (numcell_at row (int i))) \<longleftrightarrow> list_ex numValid row"
      if "row \<in> set ?g" for row
      using num_in_row [of row numValid] len [OF that] by simp
    then show ?thesis
      by (auto simp: hasNumVector_def list_ex_iff)
  qed
  ultimately show ?thesis by simp
qed

lemma numCalculateRange_succeeds:
  assumes "1 \<le> r" and "1 \<le> c"
  shows "\<exists>rg. numCalculateRange (numBuildGrid us0 vs0 cont c r) = Inr rg"
proof -
  let ?g = "numBuildGrid us0 vs0 cont c r"
  let ?n = "if cont then Suc (nat c) else nat c"
  have "length ?g = nat r" by (simp add: numBuildGrid_def length_numBuildRows)
  with assms(1) obtain row0 rest where g: "?g = row0 # rest"
    by (cases ?g) auto
  then have "row0 \<in> set ?g" by simp
  then have n: "length row0 = ?n" by (rule numBuildGrid_rows)
  have "\<forall>row\<in>set ?g. \<forall>i\<in>set [0..<?n]. numcell_at row (int i) \<noteq> NumUndefined"
  proof (intro ballI)
    fix row i assume row: "row \<in> set ?g" and i: "i \<in> set [0..<?n]"
    from numBuildGrid_rows(1) [OF row] i have "i < length row" by simp
    then have "numcell_at row (int i) \<in> set row" by (simp add: numcell_at_nth)
    from numBuildGrid_rows(2) [OF row _ this] assms(2)
    show "numcell_at row (int i) \<noteq> NumUndefined" by auto
  qed
  from numRangeRows_succeeds [OF this] obtain rg where "numRangeRows ?g ?n (PInf, NInf) = Inr rg"
    by blast
  with g n show ?thesis by (auto simp: numCalculateRange_def)
qed

lemma NumField_constructor_InrD:
  assumes "NumField_constructor options = Inr f"
  shows "nf_grid f = numBuildGrid (nopt_us options) (nopt_vs options) (nf_isContinuous f)
                       (nopt_cols options) (nopt_rows options)"
    and "numCalculateRange (nf_grid f) = Inr (nf_range f)"
  using assms by (auto simp: NumField_constructor_def Let_def split: sum.splits)

subsection \<open>Construction: the range and the latitude bounds\<close>

text \<open>
  Claim C4, as the code has it. The constructor fails with "grid required" when the grid
  has no row. With at least one row and one column it succeeds, whatever the samples are.
  The range of a grid without any vector is \<open>[+\<infinity>, -\<infinity>]\<close>; the range of a grid with at
  least one vector and no NaN magnitude satisfies \<open>range[0] \<le> range[1]\<close>.
\<close>

theorem NumField_constructor_range:
  "(nopt_rows options \<le> 0 \<longrightarrow> NumField_constructor options = Inl GridRequired) \<and>
   (1 \<le> nopt_rows options \<and> 1 \<le> nopt_cols options \<longrightarrow>
      (\<exists>f. NumField_constructor options = Inr f)) \<and>
   (NumField_constructor options = Inr f \<longrightarrow>
      (\<not> hasNumVector (nf_grid f) \<longrightarrow> nf_range f = (PInf, NInf)) \<and>
      (hasNumVector (nf_grid f) \<and> \<not> hasNaNMagnitude (nf_grid f) \<longrightarrow>
         js_le (fst (nf_range f)) (snd (nf_range f))))"
proof (intro conjI impI)
  assume "nopt_rows options \<le> 0"
  then show "NumField_constructor options = Inl GridRequired"
    by (simp add: NumField_constructor_def numBuildGrid_def numCalculateRange_def Let_def)
next
  assume "1 \<le> nopt_rows options \<and> 1 \<le> nopt_cols options"
  then obtain rg where
    "numCalculateRange (numBuildGrid (nopt_us options) (nopt_vs options)
       (360 \<le> \<lfloor>of_int (nopt_cols options) * nopt_deltaX options\<rfloor>)
       (nopt_cols options) (nopt_rows options)) = Inr rg"
    using numCalculateRange_succeeds by blast
  then show "\<exists>f. NumField_constructor options = Inr f"
    by (simp add: NumField_constructor_def Let_def)
next
  assume c: "NumField_constructor options = Inr f" and v: "\<not> hasNumVector (nf_grid f)"
  have "\<not> hasNaNMagnitude (nf_grid f)"
  proof
    assume "hasNaNMagnitude (nf_grid f)"
    then obtain x where "x \<in> set (concat (nf_grid f))" "nanCell x"
      by (auto simp: hasNaNMagnitude_def list_ex_iff)
    moreover from \<open>nanCell x\<close> have "numValid x" by (cases x) simp_all
    ultimately show False using v by (auto simp: hasNumVector_def list_ex_iff)
  qed
  with numCalculateRange_built [of "nopt_us options" "nopt_vs options" "nf_isContinuous f"
      "nopt_cols options" "nopt_rows options" "nf_range f"] NumField_constructor_InrD [OF c] v
  show "nf_range f = (PInf, NInf)" by simp
next
  assume c: "NumField_constructor options = Inr f"
    and v: "hasNumVector (nf_grid f) \<and> \<not> hasNaNMagnitude (nf_grid f)"
  with numCalculateRange_built [of "nopt_us options" "nopt_vs options" "nf_isContinuous f"
      "nopt_cols options" "nopt_rows options" "nf_range f"] NumField_constructor_InrD [OF c]
  show "js_le (fst (nf_range f)) (snd (nf_range f))" by simp
qed


lemma infiniteSampleField_constructed:
  "NumField_constructor infiniteSampleOptions = Inr infiniteSampleField"
  by (simp add: NumField_constructor_def infiniteSampleOptions_def infiniteSampleField_def
      numBuildGrid_def numeral_2_eq_2 numBuiltRow_def numBuildCell_def num_sample_at_def
      newNumVector_def num_magnitude_def js_inf_def numCalculateRange_def upt_rec
      numcell_at_def at_index_def Let_def)

theorem NumField_constructor_range_witness:
  "NumField_constructor (infiniteSampleOptions\<lparr>nopt_rows := 0\<rparr>) = Inl GridRequired \<and>
   NumField_constructor infiniteSampleOptions = Inr infiniteSampleField \<and>
   hasNumVector (nf_grid infiniteSampleField) \<and>
   \<not> hasNaNMagnitude (nf_grid infiniteSampleField) \<and>
   nf_range infiniteSampleField = (Fin 1, PInf) \<and>
   js_le (fst (nf_range infiniteSampleField)) (snd (nf_range infiniteSampleField))"
proof -
  have h0: "nopt_rows (infiniteSampleOptions\<lparr>nopt_rows := 0\<rparr>) \<le> 0" by simp
  have h1: "NumField_constructor infiniteSampleOptions = Inr infiniteSampleField"
    by (rule infiniteSampleField_constructed)
  have h2: "hasNumVector (nf_grid infiniteSampleField)"
    by (simp add: hasNumVector_def infiniteSampleField_def)
  have h3: "\<not> hasNaNMagnitude (nf_grid infiniteSampleField)"
    by (simp add: hasNaNMagnitude_def infiniteSampleField_def)
  have h4: "nf_range infiniteSampleField = (Fin 1, PInf)"
    by (simp add: infiniteSampleField_def)
  from NumField_constructor_range [of "infiniteSampleOptions\<lparr>nopt_rows := 0\<rparr>"] h0
  have a: "NumField_constructor (infiniteSampleOptions\<lparr>nopt_rows := 0\<rparr>) = Inl GridRequired"
    by blast
  from NumField_constructor_range [of infiniteSampleOptions infiniteSampleField] h1 h2 h3
  have b: "js_le (fst (nf_range infiniteSampleField)) (snd (nf_range infiniteSampleField))"
    by blast
  from a h1 h2 h3 h4 b show ?thesis by blast
qed

text \<open>
  A NaN sample is stored as a vector, and its NaN magnitude becomes both bounds of the
  range.
\<close>

lemma nan_sample_constructed:
  "NumField_constructor (infiniteSampleOptions\<lparr>nopt_us := [Some (Fin 1), Some NaN]\<rparr>)
     = Inr (infiniteSampleField
              \<lparr>nf_us := [Some (Fin 1), Some NaN],
               nf_grid := [[NumVec \<lparr>num_u = Fin 1, num_v = Fin 0, num_m = Fin 1\<rparr>,
                            NumVec \<lparr>num_u = NaN, num_v = Fin 0, num_m = NaN\<rparr>]],
               nf_range := (NaN, NaN)\<rparr>)"
  by (simp add: NumField_constructor_def infiniteSampleOptions_def infiniteSampleField_def
      numBuildGrid_def numeral_2_eq_2 numBuiltRow_def numBuildCell_def num_sample_at_def
      newNumVector_def num_magnitude_def js_inf_def numCalculateRange_def upt_rec
      numcell_at_def at_index_def Let_def)

text \<open>On finite samples the construction is the one over the reals.\<close>

lemma num_sample_at_embed:
  "num_sample_at (map (map_option Fin) xs) p = map_option Fin (sample_at xs p)"
  by (simp add: num_sample_at_def sample_at_def)

lemma sum_squares_not_neg: "\<not> u * u + v * v < (0::real)"
  by (simp add: not_less)

lemma newNumVector_embed: "newNumVector (Fin u) (Fin v) = embedVector (mkVector u v)"
  by (simp add: newNumVector_def embedVector_def mkVector_def num_magnitude_def magnitude_def
      not_less)

lemma numBuildCell_embed:
  "numBuildCell (map (map_option Fin) us0) (map (map_option Fin) vs0) p
     = embedCell (buildCell us0 vs0 p)"
  by (simp add: numBuildCell_def buildCell_def num_sample_at_embed newNumVector_embed
      split: option.splits)

lemma numBuildRow_embed:
  "numBuildRow (map (map_option Fin) us0) (map (map_option Fin) vs0) p n
     = map embedCell (buildRow us0 vs0 p n)"
  by (induction n arbitrary: p) (simp_all add: numBuildCell_embed)

lemma numcell_at_embed: "numcell_at (map embedCell row) k = embedCell (cell_at row k)"
  by (auto simp: numcell_at_def cell_at_def at_index_def nat_less_iff)

lemma numBuiltRow_embed:
  "numBuiltRow (map (map_option Fin) us0) (map (map_option Fin) vs0) cont c p
     = map embedCell (builtRow us0 vs0 cont c p)"
  by (simp add: numBuiltRow_def builtRow_def Let_def numBuildRow_embed numcell_at_embed)

lemma numBuildRows_embed:
  "numBuildRows (map (map_option Fin) us0) (map (map_option Fin) vs0) cont c p r
     = map (map embedCell) (buildRows us0 vs0 cont c p r)"
  by (induction r arbitrary: p) (simp_all add: numBuiltRow_embed)

lemma numRangeCell_embed: "numRangeCell (embedCell x) acc = rangeCell x acc"
  by (cases x; cases acc)
     (simp_all add: embedVector_def num_magnitude_def magnitude_def sum_squares_not_neg Let_def)

lemma numRangeRow_embed: "numRangeRow (map embedCell row) is acc = rangeRow row is acc"
  by (induction "is" arbitrary: acc)
     (simp_all add: numcell_at_embed numRangeCell_embed split: sum.splits)

lemma numRangeRows_embed: "numRangeRows (map (map embedCell) g) c acc = rangeRows g c acc"
  by (induction g arbitrary: acc) (simp_all add: numRangeRow_embed split: sum.splits)

lemma numCalculateRange_embed:
  "numCalculateRange (map (map embedCell) g) = calculateRange g"
proof (cases g)
  case Nil
  then show ?thesis by (simp add: numCalculateRange_def calculateRange_def)
next
  case (Cons row0 rest)
  have "numRangeRows (map (map embedCell) (row0 # rest)) (length row0) (PInf, NInf)
        = rangeRows (row0 # rest) (length row0) (PInf, NInf)"
    by (rule numRangeRows_embed)
  with Cons show ?thesis by (simp add: numCalculateRange_def calculateRange_def)
qed

lemma numBuildGrid_embed:
  "numBuildGrid (map (map_option Fin) us0) (map (map_option Fin) vs0) cont c r
     = map (map embedCell) (buildGrid us0 vs0 cont c r)"
  by (simp add: numBuildGrid_def buildGrid_def numBuildRows_embed)

lemma NumField_constructor_embed:
  "NumField_constructor (embedOptions options) = map_sum id embedField (Field_constructor options)"
  by (simp add: NumField_constructor_def Field_constructor_def embedOptions_def
      embedField_def Let_def numBuildGrid_embed numCalculateRange_embed split: sum.splits)

text \<open>
  Claim C4, as the specification states it, fails on a grid of one cell that is empty: the
  constructor returns a field, and its range is \<open>[+\<infinity>, -\<infinity>]\<close>, with \<open>range[0]\<close> above
  \<open>range[1]\<close>.
\<close>

theorem empty_grid_constructed:
  "Field_constructor (exampleOptions\<lparr>opt_cols := 1, opt_rows := 1, opt_us := [None], opt_vs := [None]\<rparr>)
     = Inr (exampleField\<lparr>cols := 1, rows := 1, us := [None], vs := [None],
                         grid := [[Null]], frange := (PInf, NInf)\<rparr>) \<and>
   \<not> hasVector [[Null]] \<and> \<not> js_le PInf NInf"
  by (simp add: Field_constructor_def exampleOptions_def exampleField_def buildGrid_def
      builtRow_def buildCell_def sample_at_def calculateRange_def hasVector_def
      upt_rec cell_at_def at_index_def Let_def)




subsection \<open>Interpolation\<close>

lemma getFourSurroundingValues_Some:
  assumes "gridCell f fi fj = Vec g00" and "gridCell f ci fj = Vec g10"
      and "gridCell f fi cj = Vec g01" and "gridCell f ci cj = Vec g11"
  shows "getFourSurroundingValues f fi ci fj cj = Some (g00, g10, g01, g11)"
proof -
  from assms(1) obtain r where r: "at_index (grid f) fj = Some r" "cell_at r fi = Vec g00"
    by (auto simp: gridCell_def split: option.splits)
  from assms(3) obtain r' where r': "at_index (grid f) cj = Some r'" "cell_at r' fi = Vec g01"
    by (auto simp: gridCell_def split: option.splits)
  from assms(2) r have "cell_at r ci = Vec g10" by (simp add: gridCell_def)
  moreover from assms(4) r' have "cell_at r' ci = Vec g11" by (simp add: gridCell_def)
  ultimately show ?thesis using r r'
    by (simp add: getFourSurroundingValues_def)
qed

lemma getFourSurroundingValues_SomeD:
  assumes "getFourSurroundingValues f fi ci fj cj = Some (g00, g10, g01, g11)"
  shows "gridCell f fi fj = Vec g00 \<and> gridCell f ci fj = Vec g10 \<and>
         gridCell f fi cj = Vec g01 \<and> gridCell f ci cj = Vec g11"
proof -
  from assms obtain r where r: "at_index (grid f) fj = Some r"
    by (auto simp: getFourSurroundingValues_def split: option.splits)
  with assms have a: "cell_at r fi = Vec g00" "cell_at r ci = Vec g10"
    by (auto simp: getFourSurroundingValues_def split: option.splits cell.splits)
  with assms r obtain r' where r': "at_index (grid f) cj = Some r'"
    by (auto simp: getFourSurroundingValues_def split: option.splits)
  with assms r a have "cell_at r' fi = Vec g01" "cell_at r' ci = Vec g11"
    by (auto simp: getFourSurroundingValues_def split: cell.splits)
  with r r' a show ?thesis by (simp add: gridCell_def)
qed

lemma getFourSurroundingValues_None:
  assumes "\<not> (isValid (gridCell f fi fj) \<and> isValid (gridCell f ci fj) \<and>
              isValid (gridCell f fi cj) \<and> isValid (gridCell f ci cj))"
  shows "getFourSurroundingValues f fi ci fj cj = None"
proof (cases "getFourSurroundingValues f fi ci fj cj")
  case None
  then show ?thesis .
next
  case (Some q)
  obtain g00 g10 g01 g11 where "q = (g00, g10, g01, g11)" by (cases q)
  with Some getFourSurroundingValues_SomeD [of f fi ci fj cj g00 g10 g01 g11] assms
  show ?thesis by simp
qed


lemma clampRowIndex_inside:
  "0 \<le> jj \<Longrightarrow> jj \<le> rows f - 1 \<Longrightarrow> clampRowIndex f jj = jj"
  by (simp add: clampRowIndex_def Let_def)







subsection \<open>The eastern boundary\<close>

lemma constructed_grid:
  assumes "Field_constructor options = Inr f"
  shows "grid f = buildRows (us f) (vs f) (isContinuous f) (nat (cols f)) 0 (nat (rows f))"
  using Field_constructor_InrD(8,12,13) [OF assms] by (simp add: buildGrid_def)

lemma constructed_rows_pos:
  assumes "Field_constructor options = Inr f"
  shows "1 \<le> rows f"
proof -
  have "grid f \<noteq> []"
    using Field_constructor_InrD(9) [OF assms] by (auto simp: calculateRange_def)
  then have "0 < length (grid f)" by simp
  then show ?thesis
    by (simp add: constructed_grid [OF assms] length_buildRows)
qed

lemma at_index_grid:
  assumes "Field_constructor options = Inr f" and "0 \<le> jj" and "jj < rows f"
  shows "at_index (grid f) jj =
         Some (builtRow (us f) (vs f) (isContinuous f) (nat (cols f)) (nat jj * nat (cols f)))"
  using assms(2,3)
  by (simp add: constructed_grid [OF assms(1)] at_index_def length_buildRows nth_buildRows)

lemma clampRowIndex_range:
  "1 \<le> rows f \<Longrightarrow> 0 \<le> clampRowIndex f jj \<and> clampRowIndex f jj < rows f"
  by (simp add: clampRowIndex_def Let_def)

lemma builtRow_Vec:
  assumes "cell_at (builtRow us0 vs0 cont c p) k = Vec g"
  shows "\<exists>u v. g = mkVector u v"
proof -
  let ?row = "builtRow us0 vs0 cont c p"
  from assms have k: "0 \<le> k" "nat k < length ?row" and g: "?row ! nat k = Vec g"
    by (auto simp: cell_at_def at_index_def split: if_splits)
  show ?thesis
  proof (cases "nat k < c")
    case True
    then have "?row ! nat k = buildCell us0 vs0 (p + nat k)"
      by (simp add: builtRow_def Let_def nth_append length_buildRow nth_buildRow)
    with g buildCell_cases [of us0 vs0 "p + nat k"] show ?thesis by auto
  next
    case False
    with k have kc: "nat k = c" and cont: cont
      by (auto simp: length_builtRow split: if_splits)
    show ?thesis
    proof (cases "c = 0")
      case True
      with kc cont g show ?thesis
        by (simp add: builtRow_def Let_def cell_at_def at_index_def)
    next
      case False
      with kc cont have "?row ! nat k = buildCell us0 vs0 p"
        by (simp add: builtRow_def Let_def nth_append length_buildRow cell_at_def at_index_def
            nth_buildRow buildRow_eq_Nil)
      with g buildCell_cases [of us0 vs0 p] show ?thesis by auto
    qed
  qed
qed

lemma constructed_Vec:
  assumes "Field_constructor options = Inr f" and "gridCell f col row = Vec g"
  shows "mkVector (vec_u g) (vec_v g) = g"
proof -
  from assms(2) obtain r where r: "at_index (grid f) row = Some r" and g: "cell_at r col = Vec g"
    by (auto simp: gridCell_def split: option.splits)
  from r have "0 \<le> row" "row < int (length (grid f))"
    by (auto simp: at_index_def split: if_splits)
  then have "0 \<le> row" "row < rows f"
    by (auto simp: constructed_grid [OF assms(1)] length_buildRows split: if_splits)
  from at_index_grid [OF assms(1) this] r g builtRow_Vec
  obtain u v where "g = mkVector u v" by fastforce
  then show ?thesis by (simp add: mkVector_def)
qed

text \<open>
  Claim C9. On a constructed field that is neither wrapped nor continuous, at a point of
  longitude \<open>xmax\<close> whose decimal column index is \<open>cols\<close>: \<open>contains\<close> holds,
  \<open>valueAt\<close> returns the cell of the last column in the clamped row, which is a cell of
  the grid, \<open>hasValueAt\<close> holds exactly when that cell is not \<open>null\<close>, and
  \<open>interpolatedValueAt\<close> returns no value, the corner of column \<open>cols\<close> being
  \<open>undefined\<close>.
\<close>

theorem eastern_boundary_no_interpolation:
  assumes c: "Field_constructor options = Inr f"
      and nw: "\<not> wrappedX f" and nc: "\<not> isContinuous f"
      and dx: "deltaX f \<noteq> 0" and dy: "deltaY f \<noteq> 0"
      and cols1: "1 \<le> cols f"
      and x: "xmin f \<le> xmax f"
      and lat: "if deltaY f \<ge> 0 then ymin f \<le> lat \<and> lat \<le> ymax f
                else ymax f \<le> lat \<and> lat \<le> ymin f"
      and ij: "getDecimalIndexes f (xmax f) lat = (of_int (cols f), j)"
  shows "contains f (xmax f) lat \<and>
         valueAt f (xmax f) lat = Inr (gridCell f (cols f - 1) (clampRowIndex f \<lfloor>j\<rfloor>)) \<and>
         gridCell f (cols f - 1) (clampRowIndex f \<lfloor>j\<rfloor>) \<noteq> Undefined \<and>
         hasValueAt f (xmax f) lat = Inr (gridCell f (cols f - 1) (clampRowIndex f \<lfloor>j\<rfloor>) \<noteq> Null) \<and>
         gridCell f (cols f) (clampRowIndex f \<lfloor>j\<rfloor>) = Undefined \<and>
         interpolatedValueAt f (xmax f) lat = None"
proof -
  let ?cj = "clampRowIndex f \<lfloor>j\<rfloor>"
  let ?row = "builtRow (us f) (vs f) False (nat (cols f)) (nat ?cj * nat (cols f))"
  have inside: "contains f (xmax f) lat"
    using nw x lat by (simp add: contains_def getWrappedLongitudes_def)
  have cj: "0 \<le> ?cj" "?cj < rows f"
    using clampRowIndex_range [OF constructed_rows_pos [OF c]] by simp_all
  have row: "at_index (grid f) ?cj = Some ?row"
    using at_index_grid [OF c cj] nc by simp
  have ci: "clampColumnIndex f (cols f) = cols f - 1"
    by (simp add: clampColumnIndex_def)
  have v: "valueAt f (xmax f) lat = Inr (gridCell f (cols f - 1) ?cj)"
    using inside row by (simp add: valueAt_def ij ci valueAtIndexes_def gridCell_def)
  have "cell_at ?row (cols f - 1) = buildCell (us f) (vs f) (nat ?cj * nat (cols f) + nat (cols f - 1))"
    using cols1 by (intro cell_at_builtRow) simp_all
  then have edge: "gridCell f (cols f - 1) ?cj \<noteq> Undefined"
    using row buildCell_cases [of "us f" "vs f" "nat ?cj * nat (cols f) + nat (cols f - 1)"]
    by (auto simp: gridCell_def)
  have h: "hasValueAt f (xmax f) lat = Inr (gridCell f (cols f - 1) ?cj \<noteq> Null)"
    by (simp add: hasValueAt_def v)
  have "cell_at ?row (cols f) = Undefined"
    using cols1 by (intro cell_at_builtRow_past) simp_all
  then have past: "gridCell f (cols f) ?cj = Undefined"
    using row by (simp add: gridCell_def)
  obtain ci' cj' where ix: "getFourSurroundingIndexes f (of_int (cols f)) j = (cols f, ci', ?cj, cj')"
    by (simp add: getFourSurroundingIndexes_def Let_def)
  from past have "getFourSurroundingValues f (cols f) ci' ?cj cj' = None"
    by (intro getFourSurroundingValues_None) simp
  then have i: "interpolatedValueAt f (xmax f) lat = None"
    by (simp add: interpolatedValueAt_def interpolatePoint_def ij ix)
  from inside v edge h past i show ?thesis by blast
qed

theorem eastern_boundary_no_interpolation_witness:
  "contains exampleField 2 1 \<and>
   valueAt exampleField 2 1 = Inr (gridCell exampleField 1 1) \<and>
   gridCell exampleField 1 1 = Vec \<lparr>vec_u = - 1, vec_v = 0, vec_m = 1\<rparr> \<and>
   hasValueAt exampleField 2 1 = Inr True \<and>
   interpolatedValueAt exampleField 2 1 = None"
proof -
  have f: "\<not> wrappedX exampleField" "\<not> isContinuous exampleField"
    "deltaX exampleField \<noteq> 0" "deltaY exampleField \<noteq> 0" "1 \<le> cols exampleField"
    "xmin exampleField \<le> xmax exampleField"
    by (simp_all add: exampleField_def)
  have lat: "if deltaY exampleField \<ge> 0 then ymin exampleField \<le> 1 \<and> 1 \<le> ymax exampleField
             else ymax exampleField \<le> 1 \<and> 1 \<le> ymin exampleField"
    by (simp add: exampleField_def)
  have ij: "getDecimalIndexes exampleField (xmax exampleField) 1 = (of_int (cols exampleField), 1)"
    by (simp add: exampleField_def getDecimalIndexes_def floorMod_def)
  have xm: "xmax exampleField = 2" and cl: "cols exampleField - 1 = 1"
    and cj: "clampRowIndex exampleField \<lfloor>1::real\<rfloor> = 1"
    by (simp_all add: exampleField_def clampRowIndex_def)
  have g: "gridCell exampleField 1 1 = Vec \<lparr>vec_u = - 1, vec_v = 0, vec_m = 1\<rparr>"
    by (simp add: exampleField_def gridCell_def at_index_def cell_at_def)
  note t = eastern_boundary_no_interpolation [OF exampleField_constructed f lat ij,
      unfolded xm cl cj]
  from t g show ?thesis by simp
qed

subsection \<open>Grid nodes and cell centres\<close>

lemma bilinearInterpolateVector_node:
  "bilinearInterpolateVector 0 0 g00 g10 g01 g11 = mkVector (vec_u g00) (vec_v g00)"
  by (simp add: bilinearInterpolateVector_def Let_def)

text \<open>
  Claim C2, as the code has it. The stored value of a constructed field is returned at
  every point inside \<open>contains\<close> whose decimal indexes, as \<open>getDecimalIndexes\<close>
  computes them, are exactly the integers \<open>(i, j)\<close> of a row of the grid, when the cell
  and its three neighbouring corners hold vectors: the fractional parts are zero and the
  blend is the first corner. (The cell-centre coordinates of \<open>longitudeAtX\<close> and
  \<open>latitudeAtY\<close> are not such a point, as the theorem after this one shows.)
\<close>

theorem node_reproduction:
  assumes c: "Field_constructor options = Inr f"
      and dx: "deltaX f \<noteq> 0" and dy: "deltaY f \<noteq> 0"
      and inside: "contains f lon lat"
      and ij: "getDecimalIndexes f lon lat = (of_int i, of_int j)"
      and j: "0 \<le> j" "j < rows f"
      and ix: "getFourSurroundingIndexes f (of_int i) (of_int j) = (fi, ci, fj, cj)"
      and g: "gridCell f i j = Vec g"
      and nb: "isValid (gridCell f ci j)" "isValid (gridCell f i cj)" "isValid (gridCell f ci cj)"
  shows "fi = i \<and> fj = j \<and> interpolatedValueAt f lon lat = Some g"
proof -
  have fi: "fi = i" and fj: "fj = j"
    using ix j by (auto simp: getFourSurroundingIndexes_def Let_def clampRowIndex_inside)
  from nb obtain g10 g01 g11 where
    "gridCell f ci j = Vec g10" "gridCell f i cj = Vec g01" "gridCell f ci cj = Vec g11"
    by (metis isValid.elims(2))
  with g have "getFourSurroundingValues f i ci j cj = Some (g, g10, g01, g11)"
    by (intro getFourSurroundingValues_Some)
  then have "interpolatedValueAt f lon lat = Some (mkVector (vec_u g) (vec_v g))"
    using inside ix by (simp add: interpolatedValueAt_def ij interpolatePoint_def fi fj
        bilinearInterpolateVector_node)
  then have "interpolatedValueAt f lon lat = Some g"
    by (simp add: constructed_Vec [OF c g])
  with fi fj show ?thesis by simp
qed

theorem node_reproduction_witness:
  "getDecimalIndexes exampleField 1 2 = (1, 0) \<and>
   gridCell exampleField 1 0 = Vec \<lparr>vec_u = 0, vec_v = 1, vec_m = 1\<rparr> \<and>
   interpolatedValueAt exampleField 1 2 = Some \<lparr>vec_u = 0, vec_v = 1, vec_m = 1\<rparr>"
proof -
  have f: "deltaX exampleField \<noteq> 0" "deltaY exampleField \<noteq> 0"
    by (simp_all add: exampleField_def)
  have inside: "contains exampleField 1 2"
    by (simp add: exampleField_def contains_def getWrappedLongitudes_def)
  have ij: "getDecimalIndexes exampleField 1 2 = (of_int 1, of_int 0)"
    by (simp add: exampleField_def getDecimalIndexes_def floorMod_def)
  have j: "(0::int) \<le> 0" "0 < rows exampleField"
    by (simp_all add: exampleField_def)
  have ix: "getFourSurroundingIndexes exampleField (of_int 1) (of_int 0) = (1, 1, 0, 1)"
    by (simp add: exampleField_def getFourSurroundingIndexes_def clampColumnIndex_def
        clampRowIndex_def Let_def)
  have g: "gridCell exampleField 1 0 = Vec \<lparr>vec_u = 0, vec_v = 1, vec_m = 1\<rparr>"
    by (simp add: exampleField_def gridCell_def at_index_def cell_at_def)
  have nb: "isValid (gridCell exampleField 1 0)" "isValid (gridCell exampleField 1 1)"
    "isValid (gridCell exampleField 1 1)"
    by (simp_all add: exampleField_def gridCell_def at_index_def cell_at_def)
  note t = node_reproduction [OF exampleField_constructed f inside ij j ix g nb]
  from t ij g show ?thesis by simp
qed

text \<open>
  Claim C2, as the specification states it, fails on the example field at the index
  \<open>(0, 0)\<close>: the cell holds \<open>u = 1\<close>, \<open>v = 0\<close>, its coordinates are \<open>(1/2, 3/2)\<close>,
  and the interpolation there is the average of the four cells, \<open>u = 0\<close>, \<open>v = 0\<close>.
\<close>

theorem cell_center_not_reproduced:
  "Field_constructor exampleOptions = Inr exampleField \<and>
   valueAtIndexes exampleField 0 0 = Inr (Vec \<lparr>vec_u = 1, vec_v = 0, vec_m = 1\<rparr>) \<and>
   longitudeAtX exampleField 0 = 1 / 2 \<and> latitudeAtY exampleField 0 = 3 / 2 \<and>
   interpolatedValueAt exampleField (longitudeAtX exampleField 0) (latitudeAtY exampleField 0)
     = Some \<lparr>vec_u = 0, vec_v = 0, vec_m = 0\<rparr>"
  by (simp add: exampleField_constructed) (simp add: exampleField_def field_query_defs)

subsection \<open>The particle engine\<close>

text \<open>
  Claim C10. A particle whose staged \<open>xt\<close> or \<open>yt\<close> is zero is skipped by the loop of
  \<open>drawParticles\<close>: no segment, and the particle is left as it was, whatever its age
  and wherever it is.
\<close>

theorem zero_target_not_drawn:
  assumes "p_xt particle = Some 0 \<or> p_yt particle = Some 0"
  shows "drawParticle env mn mx particle = (particle, [])"
  using assms by (auto simp: drawParticle_def)

theorem zero_target_not_drawn_witness:
  "moveParticle (exampleEngine\<lparr>velocityScale := 1\<rparr>) 0
     \<lparr>p_x = 1, p_y = 1, p_xt = None, p_yt = None, p_age = 0, p_m = None\<rparr>
     = Inr (0, \<lparr>p_x = 1, p_y = 1, p_xt = Some 0, p_yt = Some 1, p_age = 1, p_m = Some 1\<rparr>) \<and>
   hasValueAt exampleField 0 1 = Inr True \<and>
   drawParticle (exampleEngine\<lparr>velocityScale := 1\<rparr>) (Fin 1) (Fin 1)
     \<lparr>p_x = 1, p_y = 1, p_xt = Some 0, p_yt = Some 1, p_age = 1, p_m = Some 1\<rparr>
     = (\<lparr>p_x = 1, p_y = 1, p_xt = Some 0, p_yt = Some 1, p_age = 1, p_m = Some 1\<rparr>, [])"
proof -
  have v: "interpolatedValueAt exampleField 1 1 = Some \<lparr>vec_u = - 1, vec_v = 0, vec_m = 1\<rparr>"
    by (simp add: exampleField_def field_query_defs)
  have h: "hasValueAt exampleField 0 1 = Inr True"
    by (simp add: exampleField_def field_query_defs)
  have m: "moveParticle (exampleEngine\<lparr>velocityScale := 1\<rparr>) 0
     \<lparr>p_x = 1, p_y = 1, p_xt = None, p_yt = None, p_age = 0, p_m = None\<rparr>
     = Inr (0, \<lparr>p_x = 1, p_y = 1, p_xt = Some 0, p_yt = Some 1, p_age = 1, p_m = Some 1\<rparr>)"
    by (simp add: moveParticle_def recycle_def advect_def exampleEngine_def v h)
  have z: "p_xt \<lparr>p_x = 1, p_y = 1, p_xt = Some 0, p_yt = Some 1, p_age = 1, p_m = Some 1\<rparr> = Some 0
           \<or> p_yt \<lparr>p_x = 1, p_y = 1, p_xt = Some 0, p_yt = Some 1, p_age = 1, p_m = Some 1\<rparr> = Some 0"
    by simp
  from m h zero_target_not_drawn [OF z] show ?thesis by simp
qed

text \<open>
  Claim C7. When the field has a vector at the position of the particle (after the
  aged-out check) and no value at the advected target, the sampling step moves the
  particle to the target and sets its age to \<open>maxAge\<close>, leaving \<open>xt\<close>, \<open>yt\<close> and \<open>m\<close>
  as they were; no random number is drawn, so the particle is not reseeded. The tick ends
  with the age at \<open>maxAge + 1\<close>, the draw step produces no segment and leaves the
  particle, and the aged-out check of the next tick recycles it: two random numbers are
  drawn, the age is reset to \<open>0\<close> and the position is seeded by
  \<open>assignRandomPosition\<close>.
\<close>

theorem target_outside_coverage:
  assumes r: "recycle env k particle = (k', p1)"
      and v: "interpolatedValueAt (eng_field env) (p_x p1) (p_y p1) = Some vector"
      and xt: "xt = p_x p1 + vec_u vector * velocityScale env"
      and yt: "yt = p_y p1 + vec_v vector * velocityScale env"
      and out: "hasValueAt (eng_field env) xt yt = Inr False"
      and q: "q = p1\<lparr>p_x := xt, p_y := yt, p_age := maxAge env + 1\<rparr>"
  shows "advect env p1 = Inr (p1\<lparr>p_x := xt, p_y := yt, p_age := maxAge env\<rparr>) \<and>
         moveParticle env k particle = Inr (k', q) \<and>
         drawParticle env mn mx q = (q, []) \<and>
         recycle env k'' q
           = (k'' + 2,
              assignRandomPosition (eng_field env) (q\<lparr>p_age := 0\<rparr>)
                (canvas_width env) (canvas_height env) (unproject env)
                (random env k'') (random env (k'' + 1)))"
proof -
  have a: "advect env p1 = Inr (p1\<lparr>p_x := xt, p_y := yt, p_age := maxAge env\<rparr>)"
    using v out by (simp add: advect_def Let_def xt yt)
  then have m: "moveParticle env k particle = Inr (k', q)"
    by (simp add: moveParticle_def r q)
  have age: "p_age q = maxAge env + 1" by (simp add: q)
  have d: "drawParticle env mn mx q = (q, [])"
    by (simp add: drawParticle_def drawCoordsParticle_def age split: option.splits)
  have n: "recycle env k'' q
           = (k'' + 2,
              assignRandomPosition (eng_field env) (q\<lparr>p_age := 0\<rparr>)
                (canvas_width env) (canvas_height env) (unproject env)
                (random env k'') (random env (k'' + 1)))"
    by (simp add: recycle_def age)
  from a m d n show ?thesis by blast
qed

theorem target_outside_coverage_witness:
  "hasValueAt exampleField 1 (5 / 2) = Inr False \<and>
   moveParticle exampleEngine 0 \<lparr>p_x = 1, p_y = 2, p_xt = None, p_yt = None, p_age = 3, p_m = None\<rparr>
     = Inr (0, \<lparr>p_x = 1, p_y = 5 / 2, p_xt = None, p_yt = None, p_age = 11, p_m = None\<rparr>) \<and>
   drawParticle exampleEngine (Fin 1) (Fin 1)
     \<lparr>p_x = 1, p_y = 5 / 2, p_xt = None, p_yt = None, p_age = 11, p_m = None\<rparr>
     = (\<lparr>p_x = 1, p_y = 5 / 2, p_xt = None, p_yt = None, p_age = 11, p_m = None\<rparr>, []) \<and>
   recycle exampleEngine 0
     \<lparr>p_x = 1, p_y = 5 / 2, p_xt = None, p_yt = None, p_age = 11, p_m = None\<rparr>
     = (2, \<lparr>p_x = 0, p_y = 2, p_xt = None, p_yt = None, p_age = 0, p_m = None\<rparr>)"
proof -
  let ?p = "\<lparr>p_x = 1, p_y = 2, p_xt = None, p_yt = None, p_age = 3, p_m = None\<rparr>"
  let ?g = "\<lparr>vec_u = 0, vec_v = 1, vec_m = 1\<rparr>"
  have r: "recycle exampleEngine 0 ?p = (0, ?p)"
    by (simp add: recycle_def exampleEngine_def)
  have v: "interpolatedValueAt (eng_field exampleEngine) (p_x ?p) (p_y ?p) = Some ?g"
    by (simp add: exampleEngine_def exampleField_def field_query_defs)
  have xt: "1 = p_x ?p + vec_u ?g * velocityScale exampleEngine"
    and yt: "5 / 2 = p_y ?p + vec_v ?g * velocityScale exampleEngine"
    by (simp_all add: exampleEngine_def)
  have out: "hasValueAt (eng_field exampleEngine) 1 (5 / 2) = Inr False"
    by (simp add: exampleEngine_def exampleField_def field_query_defs)
  have q: "\<lparr>p_x = 1, p_y = 5 / 2, p_xt = None, p_yt = None, p_age = 11, p_m = None\<rparr>
      = ?p\<lparr>p_x := 1, p_y := 5 / 2, p_age := maxAge exampleEngine + 1\<rparr>"
    by (simp add: exampleEngine_def)
  have e: "eng_field exampleEngine = exampleField" by (simp add: exampleEngine_def)
  have s: "assignRandomPosition exampleField
      \<lparr>p_x = 1, p_y = 5 / 2, p_xt = None, p_yt = None, p_age = 0, p_m = None\<rparr>
      (canvas_width exampleEngine) (canvas_height exampleEngine) (unproject exampleEngine)
      (random exampleEngine 0) (random exampleEngine (0 + 1))
      = \<lparr>p_x = 0, p_y = 2, p_xt = None, p_yt = None, p_age = 0, p_m = None\<rparr>"
    by (simp add: exampleEngine_def assignRandomPosition_def)
  note t = target_outside_coverage [OF r v xt yt out q, of "Fin 1" "Fin 1" 0]
  from t out e s show ?thesis by simp
qed

text \<open>
  Claim C6, as the code has it. A particle older than \<open>maxAge\<close> at the start of a tick
  is reseeded with age \<open>0\<close>, two random numbers being drawn, and the tick goes on from the
  seeded position. Without a vector there, the tick ends with age \<open>maxAge + 1\<close> and the
  draw step produces nothing. With a vector there and a value at the advected target, the
  target is staged and the tick ends with age \<open>1\<close>; the draw step of the same tick then
  draws the segment and commits the position, when the staged coordinates are not zero, the
  target is visible, both end points project and \<open>maxAge\<close> is at least \<open>1\<close>.
\<close>

theorem recycled_particle_tick:
  assumes old: "p_age particle > maxAge env"
      and seeded: "seeded = assignRandomPosition (eng_field env) (particle\<lparr>p_age := 0\<rparr>)
                     (canvas_width env) (canvas_height env) (unproject env)
                     (random env k) (random env (k + 1))"
      and xt: "xt = p_x seeded + vec_u vector * velocityScale env"
      and yt: "yt = p_y seeded + vec_v vector * velocityScale env"
      and staged: "staged = seeded\<lparr>p_xt := Some xt, p_yt := Some yt, p_m := Some (vec_m vector), p_age := 1\<rparr>"
  shows "recycle env k particle = (k + 2, seeded) \<and> p_age seeded = 0 \<and>
         (interpolatedValueAt (eng_field env) (p_x seeded) (p_y seeded) = None \<longrightarrow>
            moveParticle env k particle = Inr (k + 2, seeded\<lparr>p_age := maxAge env + 1\<rparr>) \<and>
            drawParticle env mn mx (seeded\<lparr>p_age := maxAge env + 1\<rparr>)
              = (seeded\<lparr>p_age := maxAge env + 1\<rparr>, [])) \<and>
         (interpolatedValueAt (eng_field env) (p_x seeded) (p_y seeded) = Some vector \<and>
          hasValueAt (eng_field env) xt yt = Inr True \<longrightarrow>
            moveParticle env k particle = Inr (k + 2, staged) \<and>
            (xt \<noteq> 0 \<and> yt \<noteq> 0 \<and> intersectsCoordinate env (xt, yt) \<and> 1 \<le> maxAge env \<and>
             project env (p_x seeded, p_y seeded) = Some a \<and> project env (xt, yt) = Some b \<longrightarrow>
               drawParticle env mn mx staged
                 = (staged\<lparr>p_x := xt, p_y := yt\<rparr>,
                    [\<lparr>seg_from = a, seg_to = b, seg_style = strokeStyle env staged mn mx\<rparr>])))"
proof -
  have r: "recycle env k particle = (k + 2, seeded)"
    using old by (simp add: recycle_def seeded)
  have age0: "p_age seeded = 0"
    by (simp add: seeded assignRandomPosition_def Let_def split: option.splits)
  have none: "moveParticle env k particle = Inr (k + 2, seeded\<lparr>p_age := maxAge env + 1\<rparr>) \<and>
            drawParticle env mn mx (seeded\<lparr>p_age := maxAge env + 1\<rparr>)
              = (seeded\<lparr>p_age := maxAge env + 1\<rparr>, [])"
    if "interpolatedValueAt (eng_field env) (p_x seeded) (p_y seeded) = None"
    using that
    by (simp add: moveParticle_def r advect_def drawParticle_def drawCoordsParticle_def
        split: option.splits)
  have some: "moveParticle env k particle = Inr (k + 2, staged)"
    if "interpolatedValueAt (eng_field env) (p_x seeded) (p_y seeded) = Some vector \<and>
          hasValueAt (eng_field env) xt yt = Inr True"
    using that age0
    by (simp add: moveParticle_def r advect_def Let_def xt yt staged)
  have draw: "drawParticle env mn mx staged
                 = (staged\<lparr>p_x := xt, p_y := yt\<rparr>,
                    [\<lparr>seg_from = a, seg_to = b, seg_style = strokeStyle env staged mn mx\<rparr>])"
    if "xt \<noteq> 0 \<and> yt \<noteq> 0 \<and> intersectsCoordinate env (xt, yt) \<and> 1 \<le> maxAge env \<and>
             project env (p_x seeded, p_y seeded) = Some a \<and> project env (xt, yt) = Some b"
    using that by (simp add: drawParticle_def drawCoordsParticle_def staged Let_def)
  from r age0 none some draw show ?thesis by blast
qed

theorem recycled_particle_tick_witness:
  "moveParticle exampleEngine 0 \<lparr>p_x = 1, p_y = 1, p_xt = None, p_yt = None, p_age = 11, p_m = None\<rparr>
     = Inr (2, \<lparr>p_x = 0, p_y = 2, p_xt = Some (1 / 2), p_yt = Some 2, p_age = 1, p_m = Some 1\<rparr>) \<and>
   drawParticle exampleEngine (Fin 1) (Fin 1)
     \<lparr>p_x = 0, p_y = 2, p_xt = Some (1 / 2), p_yt = Some 2, p_age = 1, p_m = Some 1\<rparr>
     = (\<lparr>p_x = 1 / 2, p_y = 2, p_xt = Some (1 / 2), p_yt = Some 2, p_age = 1, p_m = Some 1\<rparr>,
        [\<lparr>seg_from = (0, 2), seg_to = (1 / 2, 2), seg_style = Some ''white''\<rparr>])"
proof -
  let ?p = "\<lparr>p_x = 1, p_y = 1, p_xt = None, p_yt = None, p_age = 11, p_m = None\<rparr>"
  let ?s = "\<lparr>p_x = 0, p_y = 2, p_xt = None, p_yt = None, p_age = 0, p_m = None\<rparr>"
  let ?g = "\<lparr>vec_u = 1, vec_v = 0, vec_m = 1\<rparr>"
  let ?q = "\<lparr>p_x = 0, p_y = 2, p_xt = Some (1 / 2), p_yt = Some 2, p_age = 1, p_m = Some 1\<rparr>"
  have old: "p_age ?p > maxAge exampleEngine"
    by (simp add: exampleEngine_def)
  have seeded: "?s = assignRandomPosition (eng_field exampleEngine) (?p\<lparr>p_age := 0\<rparr>)
                     (canvas_width exampleEngine) (canvas_height exampleEngine)
                     (unproject exampleEngine)
                     (random exampleEngine 0) (random exampleEngine (0 + 1))"
    by (simp add: exampleEngine_def assignRandomPosition_def)
  have xt: "1 / 2 = p_x ?s + vec_u ?g * velocityScale exampleEngine"
    and yt: "2 = p_y ?s + vec_v ?g * velocityScale exampleEngine"
    by (simp_all add: exampleEngine_def)
  have staged: "?q = ?s\<lparr>p_xt := Some (1 / 2), p_yt := Some 2, p_m := Some (vec_m ?g), p_age := 1\<rparr>"
    by simp
  have v: "interpolatedValueAt (eng_field exampleEngine) (p_x ?s) (p_y ?s) = Some ?g \<and>
           hasValueAt (eng_field exampleEngine) (1 / 2) 2 = Inr True"
    by (simp add: exampleEngine_def exampleField_def field_query_defs)
  have d: "(1 / 2 :: real) \<noteq> 0 \<and> (2 :: real) \<noteq> 0 \<and>
           intersectsCoordinate exampleEngine (1 / 2, 2) \<and> 1 \<le> maxAge exampleEngine \<and>
           project exampleEngine (p_x ?s, p_y ?s) = Some (0, 2) \<and>
           project exampleEngine (1 / 2, 2) = Some (1 / 2, 2)"
    by (simp add: exampleEngine_def)
  have st: "strokeStyle exampleEngine ?q (Fin 1) (Fin 1) = Some ''white''"
    by (simp add: strokeStyle_def exampleEngine_def)
  note t = recycled_particle_tick [OF old seeded xt yt staged,
      of "Fin 1" "Fin 1" "(0, 2)" "(1 / 2, 2)"]
  from t v d st show ?thesis by simp
qed

text \<open>
  Claim C6, as the specification states it, fails: a particle of age \<open>11\<close> in the example
  engine (\<open>maxAge = 10\<close>) is reseeded at \<open>(0, 2)\<close>, where the field holds \<open>u = 1\<close>,
  \<open>v = 0\<close>; the target \<open>(1/2, 2)\<close> is inside coverage, and the same tick draws the
  segment from \<open>(0, 2)\<close> to \<open>(1/2, 2)\<close>.
\<close>

theorem recycled_particle_drawn:
  "p_age \<lparr>p_x = 1, p_y = 1, p_xt = None, p_yt = None, p_age = 11, p_m = None\<rparr>
     > maxAge exampleEngine \<and>
   render exampleEngine 0 [\<lparr>p_x = 1, p_y = 1, p_xt = None, p_yt = None, p_age = 11, p_m = None\<rparr>]
     = Inr (2,
            [\<lparr>p_x = 1 / 2, p_y = 2, p_xt = Some (1 / 2), p_yt = Some 2, p_age = 1, p_m = Some 1\<rparr>],
            [\<lparr>seg_from = (0, 2), seg_to = (1 / 2, 2), seg_style = Some ''white''\<rparr>])"
proof -
  have v: "interpolatedValueAt exampleField 0 2 = Some \<lparr>vec_u = 1, vec_v = 0, vec_m = 1\<rparr>"
    by (simp add: exampleField_def field_query_defs)
  have h: "hasValueAt exampleField (1 / 2) 2 = Inr True"
    by (simp add: exampleField_def field_query_defs)
  have m: "moveParticle exampleEngine 0
      \<lparr>p_x = 1, p_y = 1, p_xt = None, p_yt = None, p_age = 11, p_m = None\<rparr>
      = Inr (2, \<lparr>p_x = 0, p_y = 2, p_xt = Some (1 / 2), p_yt = Some 2, p_age = 1, p_m = Some 1\<rparr>)"
    by (simp add: moveParticle_def recycle_def advect_def assignRandomPosition_def
        exampleEngine_def v h)
  have d: "drawParticles exampleEngine
      [\<lparr>p_x = 0, p_y = 2, p_xt = Some (1 / 2), p_yt = Some 2, p_age = 1, p_m = Some 1\<rparr>]
      = ([\<lparr>p_x = 1 / 2, p_y = 2, p_xt = Some (1 / 2), p_yt = Some 2, p_age = 1, p_m = Some 1\<rparr>],
         [\<lparr>seg_from = (0, 2), seg_to = (1 / 2, 2), seg_style = Some ''white''\<rparr>])"
    by (simp add: drawParticles_def drawParticle_def drawCoordsParticle_def strokeStyle_def
        exampleEngine_def)
  show ?thesis
    by (simp add: render_def m d) (simp add: exampleEngine_def)
qed

end
